theory Spec2Isabelle
  imports Main
begin

section \<open>Tokens and errors (types.go, errors)\<close>

text \<open>
  The lexical categories of \<^verbatim>\<open>types.go\<close>, in the order of the Go constant block.
\<close>

datatype Element =
    InvalidElement | Identifier | OpenCurly | CloseCurly | OpenParen | CloseParen
  | OpenAngled | CloseAngled | Comma | Dot | LineBreak | Equal | Number | Arrow | Semi
  | Comment | Annotation | StringElement | EOF

record Token =
  tType :: Element
  tValue :: string
  tLine :: nat
  tColumn :: nat

definition is' :: "Token \<Rightarrow> Element \<Rightarrow> bool" where
  "is' t o' = (tType t = o')"

text \<open>
  Go reports an out-of-range index and a nil pointer dereference by a run-time panic.
  The model keeps both as values (\<open>RuntimePanic\<close>), next to the error types the package
  declares. \<open>NeverReturns\<close> is no error of Go: it is the outcome of a call whose loop
  has reached a state from which it cannot exit.
  \<open>Errorf\<close> is an error made by \<^verbatim>\<open>fmt.Errorf\<close> from a message; \<open>Wrapped\<close> is
  \<^verbatim>\<open>fmt.Errorf("%s: %w", path, err)\<close>; \<open>OSError\<close> is an error of the operating system
  (stat, open, working directory); \<open>NumError\<close> is the error of \<^verbatim>\<open>strconv.Atoi\<close>.
\<close>

datatype panic = IndexOutOfRange | NilDereference

datatype error =
    SyntaxError string nat nat
  | ParseError Token string
  | SourceFileNotFoundError string
  | ImportFileNotFoundError string string
  | SourceIsDirectoryError string
  | MixedPackagesError string string string
  | Errorf string
  | Wrapped string error
  | OSError string
  | NumError string
  | RuntimePanic panic
  | NeverReturns

section \<open>Scanner (scanner.go)\<close>

text \<open>
  The source text is the rune slice \<^verbatim>\<open>[]rune(string(buf))\<close>. A rune is modelled by a
  \<^typ>\<open>char\<close>, so the model covers the texts whose code points are below 256; the two
  predicates of Go's \<^verbatim>\<open>unicode\<close> package are written out for that range, as the
  package's Latin-1 table has them. The field \<^verbatim>\<open>dataLen\<close> is read by \<^verbatim>\<open>peekNext\<close> only,
  which nothing calls; both are left out.
\<close>

record Scanner =
  tokens :: "Token list"
  data :: string
  start :: nat
  current :: nat

definition rune :: "char \<Rightarrow> nat" where
  "rune c = of_char c"

definition IsDigit :: "char \<Rightarrow> bool" where
  "IsDigit c = (48 \<le> rune c \<and> rune c \<le> 57)"

definition IsGraphic :: "char \<Rightarrow> bool" where
  "IsGraphic c = ((32 \<le> rune c \<and> rune c \<le> 126) \<or> (160 \<le> rune c \<and> rune c \<noteq> 173))"

definition isSpace :: "char \<Rightarrow> bool" where
  "isSpace c = (rune c \<in> {9, 10, 11, 12, 13, 32, 133, 160})"

definition TrimSpace :: "string \<Rightarrow> string" where
  "TrimSpace s = rev (dropWhile isSpace (rev (dropWhile isSpace s)))"

text \<open>\<^verbatim>\<open>strings.ReplaceAll(s, `\"`, `"`)\<close>: every backslash-quote pair, left to right.\<close>

fun unescapeQuotes :: "string \<Rightarrow> string" where
  "unescapeQuotes (a # b # cs) =
     (if a = CHR 0x5C \<and> b = CHR 0x22 then CHR 0x22 # unescapeQuotes cs
      else a # unescapeQuotes (b # cs))"
| "unescapeQuotes cs = cs"

text \<open>The slice expression \<^verbatim>\<open>data[a:b]\<close> as a string.\<close>

definition slice :: "string \<Rightarrow> nat \<Rightarrow> nat \<Rightarrow> string" where
  "slice d a b = take (b - a) (drop a d)"

definition NewScanner :: "string \<Rightarrow> Scanner" where
  "NewScanner buf = \<lparr>tokens = [], data = buf, start = 0, current = 0\<rparr>"

definition isAtEnd :: "Scanner \<Rightarrow> bool" where
  "isAtEnd s = (current s \<ge> length (data s))"

text \<open>\<^verbatim>\<open>advance\<close> indexes \<^verbatim>\<open>data[current]\<close> with no check of its own.\<close>

definition advance :: "Scanner \<Rightarrow> error + (char \<times> Scanner)" where
  "advance s =
     (if current s < length (data s)
      then Inr (data s ! current s, s\<lparr>current := current s + 1\<rparr>)
      else Inl (RuntimePanic IndexOutOfRange))"

definition peek :: "Scanner \<Rightarrow> char" where
  "peek s = (if isAtEnd s then CHR 0x00 else data s ! current s)"

text \<open>
  \<^verbatim>\<open>pos\<close> walks \<^verbatim>\<open>data[0 .. current-1]\<close>: a newline moves to the next line and sets the
  column to 1, and every rune, the newline included, then adds 1 to the column. (The
  walk stays inside the text: \<^verbatim>\<open>advance\<close> is the only writer of \<^verbatim>\<open>current\<close>, and it
  indexes \<^verbatim>\<open>data[current]\<close> before it adds 1.)
\<close>

definition posStep :: "nat \<times> nat \<Rightarrow> char \<Rightarrow> nat \<times> nat" where
  "posStep lc c =
     (let (line, column) = (if c = CHR 0x0A then (fst lc + 1, 1) else lc)
      in (line, column + 1))"

definition pos :: "Scanner \<Rightarrow> nat \<times> nat" where
  "pos s = foldl posStep (1, 1) (take (current s) (data s))"

definition scanError :: "Scanner \<Rightarrow> string \<Rightarrow> error" where
  "scanError s msg = SyntaxError msg (fst (pos s)) (snd (pos s))"

definition mkToken :: "Element \<Rightarrow> string \<Rightarrow> nat \<times> nat \<Rightarrow> Token" where
  "mkToken k v lc = \<lparr>tType = k, tValue = v, tLine = fst lc, tColumn = snd lc\<rparr>"

definition pushToken :: "Element \<Rightarrow> string \<Rightarrow> Scanner \<Rightarrow> Scanner" where
  "pushToken k v s = s\<lparr>tokens := tokens s @ [mkToken k v (pos s)]\<rparr>"

definition simpleTokens :: "char \<Rightarrow> Element option" where
  "simpleTokens = map_of
     [(CHR ''('', OpenParen), (CHR '')'', CloseParen), (CHR ''<'', OpenAngled),
      (CHR ''>'', CloseAngled), (CHR ''{'', OpenCurly), (CHR ''}'', CloseCurly),
      (CHR '','', Comma), (CHR ''.'', Dot), (CHR ''='', Equal), (CHR '';'', Semi),
      (CHR 0x0A, LineBreak)]"

lemma advance_measure:
  "advance s = Inr (r, s') \<Longrightarrow> length (data s') - current s' < length (data s) - current s"
  by (auto simp: advance_def split: if_splits)

lemma advance_frame:
  "advance s = Inr (r, s') \<Longrightarrow> data s' = data s \<and> current s' = current s + 1 \<and>
     current s < length (data s) \<and> start s' = start s \<and> tokens s' = tokens s"
  by (auto simp: advance_def split: if_splits)

subsection \<open>number\<close>

function numberLoop :: "Scanner \<Rightarrow> error + Scanner" where
  "numberLoop s =
     (if IsDigit (peek s)
      then (case advance s of Inl e \<Rightarrow> Inl e | Inr (r, s') \<Rightarrow> numberLoop s')
      else Inr s)"
  by pat_completeness auto
termination
  by (relation "measure (\<lambda>s. length (data s) - current s)") (auto dest: advance_measure)

declare numberLoop.simps [simp del]

definition number :: "Scanner \<Rightarrow> error + Scanner" where
  "number s =
     (let lc = pos s in
      case numberLoop s of Inl e \<Rightarrow> Inl e
      | Inr s' \<Rightarrow>
          Inr (s'\<lparr>tokens := tokens s' @ [mkToken Number (slice (data s') (start s') (current s')) lc]\<rparr>))"

subsection \<open>identifier\<close>

definition isLetter :: "char \<Rightarrow> bool" where
  "isLetter c = ((rune (CHR ''a'') \<le> rune c \<and> rune c \<le> rune (CHR ''z'')) \<or>
                 (rune (CHR ''A'') \<le> rune c \<and> rune c \<le> rune (CHR ''Z'')) \<or>
                 c = CHR ''_'')"

definition isLetterOrDigit :: "char \<Rightarrow> bool" where
  "isLetterOrDigit c = (isLetter c \<or> (rune (CHR ''0'') \<le> rune c \<and> rune c \<le> rune (CHR ''9'')))"

function identifierLoop :: "Scanner \<Rightarrow> error + Scanner" where
  "identifierLoop s =
     (if isLetterOrDigit (peek s)
      then (case advance s of Inl e \<Rightarrow> Inl e | Inr (r, s') \<Rightarrow> identifierLoop s')
      else Inr s)"
  by pat_completeness auto
termination
  by (relation "measure (\<lambda>s. length (data s) - current s)") (auto dest: advance_measure)

declare identifierLoop.simps [simp del]

definition identifier' :: "Scanner \<Rightarrow> error + Scanner" where
  "identifier' s =
     (let lc = pos s in
      case (if isLetter (peek s)
            then (case advance s of Inl e \<Rightarrow> Inl e | Inr (r, s1) \<Rightarrow> Inr s1)
            else Inr s) of
        Inl e \<Rightarrow> Inl e
      | Inr s1 \<Rightarrow>
         (case identifierLoop s1 of Inl e \<Rightarrow> Inl e
          | Inr s' \<Rightarrow>
              Inr (s'\<lparr>tokens := tokens s' @
                     [mkToken Identifier (slice (data s') (start s') (current s')) lc]\<rparr>)))"

subsection \<open>comment\<close>

text \<open>
  The loop of \<^verbatim>\<open>comment\<close> stops at a newline only. At the end of the input \<^verbatim>\<open>peek\<close>
  yields the rune 0, which is no newline, and the loop calls \<^verbatim>\<open>advance\<close>.
\<close>

function commentLoop :: "Scanner \<Rightarrow> error + Scanner" where
  "commentLoop s =
     (if peek s \<noteq> CHR 0x0A
      then (case advance s of Inl e \<Rightarrow> Inl e | Inr (r, s') \<Rightarrow> commentLoop s')
      else Inr s)"
  by pat_completeness auto
termination
  by (relation "measure (\<lambda>s. length (data s) - current s)") (auto dest: advance_measure)

declare commentLoop.simps [simp del]

definition comment :: "Scanner \<Rightarrow> error + Scanner" where
  "comment s =
     (let lc = pos s in
      case commentLoop s of Inl e \<Rightarrow> Inl e
      | Inr s' \<Rightarrow>
          Inr (s'\<lparr>tokens := tokens s' @
                 [mkToken Comment (TrimSpace (slice (data s') (start s' + 1) (current s'))) lc]\<rparr>))"

subsection \<open>annotation\<close>

function annotationLoop :: "Scanner \<Rightarrow> error + Scanner" where
  "annotationLoop s =
     (if peek s \<noteq> CHR '' ''
      then (case advance s of Inl e \<Rightarrow> Inl e | Inr (r, s') \<Rightarrow> annotationLoop s')
      else Inr s)"
  by pat_completeness auto
termination
  by (relation "measure (\<lambda>s. length (data s) - current s)") (auto dest: advance_measure)

declare annotationLoop.simps [simp del]

definition annotation :: "Scanner \<Rightarrow> error + Scanner" where
  "annotation s =
     (let lc = pos s in
      case annotationLoop s of Inl e \<Rightarrow> Inl e
      | Inr s' \<Rightarrow>
          if current s' - start s' = 1
          then Inl (scanError s' (''Unexpected `'' @ [peek s'] @ CHR 0x27 # '', expected identifier''))
          else Inr (s'\<lparr>tokens := tokens s' @
                      [mkToken Annotation (slice (data s') (start s' + 1) (current s')) lc]\<rparr>))"

subsection \<open>string\<close>

text \<open>
  \<^verbatim>\<open>scanToken\<close> has consumed the opening quote already; \<^verbatim>\<open>string\<close> starts with one
  more \<^verbatim>\<open>advance\<close>. The flag \<^verbatim>\<open>escaping\<close> is set by a backslash and cleared by a quote
  only.
\<close>

function stringLoop :: "Scanner \<Rightarrow> bool \<Rightarrow> error + Scanner" where
  "stringLoop s escaping =
     (if isAtEnd s then Inl (scanError s ''unterminated string'')
      else if peek s = CHR 0x22 then
        (if \<not> escaping then Inr s
         else (case advance s of Inl e \<Rightarrow> Inl e | Inr (r, s') \<Rightarrow> stringLoop s' False))
      else if peek s = CHR 0x5C then
        (case advance s of Inl e \<Rightarrow> Inl e | Inr (r, s') \<Rightarrow> stringLoop s' True)
      else if peek s = CHR 0x0A then Inl (scanError s ''unterminated string'')
      else (case advance s of Inl e \<Rightarrow> Inl e | Inr (r, s') \<Rightarrow> stringLoop s' escaping))"
  by pat_completeness auto
termination
  by (relation "measure (\<lambda>(s, e). length (data s) - current s)") (auto dest: advance_measure)

declare stringLoop.simps [simp del]

definition string' :: "Scanner \<Rightarrow> error + Scanner" where
  "string' s =
     (let lc = pos s in
      case advance s of Inl e \<Rightarrow> Inl e
      | Inr (r0, s0) \<Rightarrow>
         (case stringLoop s0 False of Inl e \<Rightarrow> Inl e
          | Inr s1 \<Rightarrow>
             (case advance s1 of Inl e \<Rightarrow> Inl e
              | Inr (r2, s2) \<Rightarrow>
                  Inr (s2\<lparr>tokens := tokens s2 @
                         [mkToken StringElement
                            (unescapeQuotes (slice (data s2) (start s2 + 1) (current s2 - 1))) lc]\<rparr>))))"

subsection \<open>scanToken, Run, Scan\<close>

definition scanToken :: "Scanner \<Rightarrow> error + Scanner" where
  "scanToken s0 =
     (case advance s0 of Inl e \<Rightarrow> Inl e
      | Inr (r, s) \<Rightarrow>
         if r = CHR ''@'' then annotation s
         else if r = CHR ''-'' then
           (if peek s \<noteq> CHR ''>''
            then (case advance s of Inl e \<Rightarrow> Inl e
                  | Inr (unkChar, s') \<Rightarrow>
                      Inl (scanError s' (''Unexpected `'' @ [unkChar] @ CHR 0x27 # '', expected `>'' @ [CHR 0x27])))
            else (case advance (pushToken Arrow ''->'' s) of Inl e \<Rightarrow> Inl e
                  | Inr (r', s') \<Rightarrow> Inr s'))
         else if r = CHR 0x0D \<or> r = CHR '' '' \<or> r = CHR 0x09 then Inr s
         else if r = CHR 0x22 then string' s
         else if r = CHR ''#'' then comment s
         else (case simpleTokens r of
                 Some k \<Rightarrow> Inr (pushToken k [r] s)
               | None \<Rightarrow>
                   if IsDigit r then number s
                   else if IsGraphic r then identifier' s
                   else Inl (scanError s (''Unexpected `'' @ [r] @ [CHR 0x27]))))"

lemma numberLoop_frame:
  "numberLoop s = Inr s' \<Longrightarrow> data s' = data s \<and> current s \<le> current s'"
proof (induction s rule: numberLoop.induct)
  case (1 s)
  show ?case
  proof (cases "IsDigit (peek s)")
    case True
    with "1.prems" obtain r s1 where a: "advance s = Inr (r, s1)" and l: "numberLoop s1 = Inr s'"
      by (subst (asm) numberLoop.simps) (auto split: sum.splits)
    from "1.IH"[OF True a refl l] advance_frame[OF a] show ?thesis by simp
  next
    case False
    with "1.prems" show ?thesis by (subst (asm) numberLoop.simps) simp
  qed
qed

lemma identifierLoop_frame:
  "identifierLoop s = Inr s' \<Longrightarrow> data s' = data s \<and> current s \<le> current s'"
proof (induction s rule: identifierLoop.induct)
  case (1 s)
  show ?case
  proof (cases "isLetterOrDigit (peek s)")
    case True
    with "1.prems" obtain r s1 where a: "advance s = Inr (r, s1)" and l: "identifierLoop s1 = Inr s'"
      by (subst (asm) identifierLoop.simps) (auto split: sum.splits)
    from "1.IH"[OF True a refl l] advance_frame[OF a] show ?thesis by simp
  next
    case False
    with "1.prems" show ?thesis by (subst (asm) identifierLoop.simps) simp
  qed
qed

lemma commentLoop_frame:
  "commentLoop s = Inr s' \<Longrightarrow> data s' = data s \<and> current s \<le> current s'"
proof (induction s rule: commentLoop.induct)
  case (1 s)
  show ?case
  proof (cases "peek s \<noteq> CHR 0x0A")
    case True
    with "1.prems" obtain r s1 where a: "advance s = Inr (r, s1)" and l: "commentLoop s1 = Inr s'"
      by (subst (asm) commentLoop.simps) (auto split: sum.splits)
    from "1.IH"[OF True a refl l] advance_frame[OF a] show ?thesis by simp
  next
    case False
    with "1.prems" show ?thesis by (subst (asm) commentLoop.simps) simp
  qed
qed

lemma annotationLoop_frame:
  "annotationLoop s = Inr s' \<Longrightarrow> data s' = data s \<and> current s \<le> current s'"
proof (induction s rule: annotationLoop.induct)
  case (1 s)
  show ?case
  proof (cases "peek s \<noteq> CHR '' ''")
    case True
    with "1.prems" obtain r s1 where a: "advance s = Inr (r, s1)" and l: "annotationLoop s1 = Inr s'"
      by (subst (asm) annotationLoop.simps) (auto split: sum.splits)
    from "1.IH"[OF True a refl l] advance_frame[OF a] show ?thesis by simp
  next
    case False
    with "1.prems" show ?thesis by (subst (asm) annotationLoop.simps) simp
  qed
qed

lemma stringLoop_frame:
  "stringLoop s e = Inr s' \<Longrightarrow> data s' = data s \<and> current s \<le> current s'"
proof (induction s e rule: stringLoop.induct)
  case (1 s e)
  note p = "1.prems"[unfolded stringLoop.simps[of s e]]
  show ?case
  proof (cases "isAtEnd s")
    case True
    with p show ?thesis by simp
  next
    case nend: False
    show ?thesis
    proof (cases "peek s = CHR 0x22")
      case q: True
      show ?thesis
      proof (cases e)
        case False
        with p nend q show ?thesis by simp
      next
        case True
        with p nend q obtain r s1 where a: "advance s = Inr (r, s1)"
          and l: "stringLoop s1 False = Inr s'"
          by (auto split: sum.splits)
        from "1.IH"(1)[OF nend q _ a refl l] True advance_frame[OF a] show ?thesis by simp
      qed
    next
      case nq: False
      show ?thesis
      proof (cases "peek s = CHR 0x5C")
        case True
        with p nend nq obtain r s1 where a: "advance s = Inr (r, s1)"
          and l: "stringLoop s1 True = Inr s'"
          by (auto split: sum.splits)
        from "1.IH"(2)[OF nend nq True a refl l] advance_frame[OF a] show ?thesis by simp
      next
        case nb: False
        show ?thesis
        proof (cases "peek s = CHR 0x0A")
          case True
          with p nend nq nb show ?thesis by simp
        next
          case False
          with p nend nq nb obtain r s1 where a: "advance s = Inr (r, s1)"
            and l: "stringLoop s1 e = Inr s'"
            by (auto split: sum.splits)
          from "1.IH"(3)[OF nend nq nb False a refl l] advance_frame[OF a] show ?thesis by simp
        qed
      qed
    qed
  qed
qed


lemma number_frame:
  "number s = Inr s' \<Longrightarrow> data s' = data s \<and> current s \<le> current s'"
  by (auto simp: number_def Let_def split: sum.splits dest!: numberLoop_frame)

lemma identifier_frame:
  "identifier' s = Inr s' \<Longrightarrow> data s' = data s \<and> current s \<le> current s'"
  by (auto simp: identifier'_def Let_def split: sum.splits if_splits prod.splits
      dest!: identifierLoop_frame advance_frame)

lemma comment_frame:
  "comment s = Inr s' \<Longrightarrow> data s' = data s \<and> current s \<le> current s'"
  by (auto simp: comment_def Let_def split: sum.splits dest!: commentLoop_frame)

lemma annotation_frame:
  "annotation s = Inr s' \<Longrightarrow> data s' = data s \<and> current s \<le> current s'"
  by (auto simp: annotation_def Let_def split: sum.splits if_splits dest!: annotationLoop_frame)

lemma string_frame:
  "string' s = Inr s' \<Longrightarrow> data s' = data s \<and> current s \<le> current s'"
  by (auto simp: string'_def Let_def split: sum.splits prod.splits
      dest!: stringLoop_frame advance_frame)

lemma scanToken_progress:
  assumes "scanToken s = Inr s'"
  shows "length (data s') - current s' < length (data s) - current s"
proof -
  from assms obtain r s1 where a: "advance s = Inr (r, s1)"
    by (auto simp: scanToken_def split: sum.splits)
  note f = advance_frame[OF a]
  have "data s' = data s1 \<and> current s1 \<le> current s'"
    using assms a
    by (auto simp: scanToken_def pushToken_def split: if_splits sum.splits option.splits prod.splits
        dest!: number_frame identifier_frame comment_frame annotation_frame string_frame
          advance_frame)
  with f show ?thesis by auto
qed

function Run :: "Scanner \<Rightarrow> error + Token list" where
  "Run s =
     (if \<not> isAtEnd s
      then (case scanToken (s\<lparr>start := current s\<rparr>) of Inl e \<Rightarrow> Inl e | Inr s' \<Rightarrow> Run s')
      else Inr (tokens (pushToken EOF [] s)))"
  by pat_completeness auto
termination
  by (relation "measure (\<lambda>s. length (data s) - current s)") (auto dest: scanToken_progress)

declare Run.simps [simp del]

definition Scan :: "string \<Rightarrow> error + Token list" where
  "Scan buf = Run (NewScanner buf)"

section \<open>Syntax tree (types.go, parser.go, file.go)\<close>

record Position =
  Line :: nat
  Column :: nat

record Offset =
  StartsAt :: Position
  EndsAt :: Position

definition offsetBetween :: "Token \<Rightarrow> Token \<Rightarrow> Offset" where
  "offsetBetween a b =
     \<lparr>StartsAt = \<lparr>Line = tLine a, Column = tColumn a\<rparr>,
      EndsAt = \<lparr>Line = tLine b, Column = tColumn b\<rparr>\<rparr>"

definition zeroOffset :: Offset where
  "zeroOffset = \<lparr>StartsAt = \<lparr>Line = 0, Column = 0\<rparr>, EndsAt = \<lparr>Line = 0, Column = 0\<rparr>\<rparr>"

datatype PrimitiveType =
    Invalid | Uint8 | Uint16 | Uint32 | Uint64 | Int8 | Int16 | Int32 | Int64
  | Float32 | Float64 | Struct | OneOf | Bool | String

datatype Type = Primitive PrimitiveType | Array Type | Map PrimitiveType Type | Unresolved string

record Package =
  pkOffset :: Offset
  pkName :: string

record Import =
  imOffset :: Offset
  imPath :: string

text \<open>
  A Go slice is a pointer to a backing array, a length and a capacity. The backing
  arrays live in a heap (a list of arrays, addressed by index), so that two slices that
  share an array are two views of one list. The nil slice has capacity 0 and its pointer
  is never read.

  The types of the tree take the representation of the three slice-valued fields as
  parameters: \<open>'c\<close> for \<^verbatim>\<open>Comments\<close>, \<open>'a\<close> for \<^verbatim>\<open>Annotations\<close>, \<open>'v\<close> for the
  \<^verbatim>\<open>Value\<close> of an annotation. The parser works on slices (\<open>'c = 'a = slice\<close>); a
  reader of the finished tree sees the lists these slices denote in the final heap.
\<close>

record slice =
  sptr :: nat
  slen :: nat
  scap :: nat

type_synonym 'x heap = "'x list list"

definition nilSlice :: slice where
  "nilSlice = \<lparr>sptr = 0, slen = 0, scap = 0\<rparr>"

definition elems :: "'x heap \<Rightarrow> slice \<Rightarrow> 'x list" where
  "elems h s = (if slen s = 0 then [] else take (slen s) (h ! sptr s))"

text \<open>
  \<^verbatim>\<open>append(s, v)\<close>: with room left, the element is written into the backing array in
  place; otherwise a new array is allocated, with the length needed and as much spare
  room as the Go runtime chooses (\<open>grow\<close>, given the old capacity and the length
  needed), filled up with the zero value \<open>z\<close>.
\<close>

definition append :: "(nat \<Rightarrow> nat \<Rightarrow> nat) \<Rightarrow> 'x \<Rightarrow> 'x heap \<Rightarrow> slice \<Rightarrow> 'x \<Rightarrow> 'x heap \<times> slice" where
  "append grow z h s v =
     (if slen s < scap s
      then (h[sptr s := (h ! sptr s)[slen s := v]], s\<lparr>slen := slen s + 1\<rparr>)
      else (let spare = grow (scap s) (slen s + 1)
            in (h @ [elems h s @ [v] @ replicate spare z],
                \<lparr>sptr = length h, slen = slen s + 1, scap = slen s + 1 + spare\<rparr>)))"

text \<open>\<^verbatim>\<open>s[:0]\<close>: the same array and capacity, length 0.\<close>

definition truncate0 :: "slice \<Rightarrow> slice" where
  "truncate0 s = s\<lparr>slen := 0\<rparr>"

record 'v AnnotationValue =
  aOffset :: Offset
  aName :: string
  aValue :: 'v

definition FindByName :: "'v AnnotationValue list \<Rightarrow> string \<Rightarrow> 'v AnnotationValue option" where
  "FindByName a name = find (\<lambda>v. aName v = name) a"

datatype ('c, 'a) Member =
    Field (fOffset: Offset) (fName: string) (fComments: 'c) (fAnnotations: 'a)
      (fType: Type) (fIndex: int)
  | OneOfField (oOffset: Offset) (oComments: 'c) (oAnnotations: 'a) (oIndex: int)
      (oItems: "('c, 'a) Member list")

record ('c, 'a) Message =
  mOffset :: Offset
  mName :: string
  mComments :: 'c
  mAnnotations :: 'a
  mFields :: "('c, 'a) Member list"

record ('c, 'a) Method =
  mtOffset :: Offset
  mtName :: string
  mtComments :: 'c
  mtAnnotations :: 'a
  ArgumentType :: string
  ReturnType :: string
  ReturnStreaming :: bool

record ('c, 'a) Service =
  svOffset :: Offset
  svName :: string
  svComments :: 'c
  svAnnotations :: 'a
  Methods :: "('c, 'a) Method list"

datatype ('c, 'a) Decl =
    PackageD Package | ImportD Import | MessageD "('c, 'a) Message" | ServiceD "('c, 'a) Service"

subsection \<open>Paths (path/filepath, Unix)\<close>

text \<open>
  \<^verbatim>\<open>filepath.Clean\<close>, by its documented rules: runs of separators count once, \<^verbatim>\<open>.\<close>
  elements are dropped, an inner \<^verbatim>\<open>..\<close> removes the element before it, \<^verbatim>\<open>..\<close> at the root
  is dropped, and the empty result is \<^verbatim>\<open>.\<close>.
\<close>

fun splitPath :: "string \<Rightarrow> string \<Rightarrow> string list" where
  "splitPath acc [] = [rev acc]"
| "splitPath acc (c # cs) =
     (if c = CHR ''/'' then rev acc # splitPath [] cs else splitPath (c # acc) cs)"

fun cleanElems :: "bool \<Rightarrow> string list \<Rightarrow> string list \<Rightarrow> string list" where
  "cleanElems rooted st [] = rev st"
| "cleanElems rooted st (e # es) =
     (if e = [] \<or> e = ''.'' then cleanElems rooted st es
      else if e = ''..'' then
        (case st of
           [] \<Rightarrow> if rooted then cleanElems rooted [] es else cleanElems rooted [e] es
         | t # ts \<Rightarrow> if t = ''..'' then cleanElems rooted (e # st) es
                     else cleanElems rooted ts es)
      else cleanElems rooted (e # st) es)"

fun joinWith :: "string \<Rightarrow> string list \<Rightarrow> string" where
  "joinWith sep [] = []"
| "joinWith sep [x] = x"
| "joinWith sep (x # y # ys) = x @ sep @ joinWith sep (y # ys)"

definition IsAbs :: "string \<Rightarrow> bool" where
  "IsAbs path = (path \<noteq> [] \<and> hd path = CHR ''/'')"

definition Clean :: "string \<Rightarrow> string" where
  "Clean path =
     (let rooted = IsAbs path;
          out = (if rooted then ''/'' else []) @
                joinWith ''/'' (cleanElems rooted [] (splitPath [] path))
      in if out = [] then ''.'' else out)"

subsection \<open>File (file.go)\<close>

record ('c, 'a) File =
  Tree :: "('c, 'a) Decl list"
  Package :: string
  DeclaredMessages :: "string list"
  DeclaredServices :: "string list"
  ImportedFiles :: "string list"
  declaredNames :: "(string \<times> ('c, 'a) Decl) list"

definition emptyFile :: "('c, 'a) File" where
  "emptyFile = \<lparr>Tree = [], Package = [], DeclaredMessages = [], DeclaredServices = [],
                 ImportedFiles = [], declaredNames = []\<rparr>"

text \<open>
  \<^verbatim>\<open>declaredNames[name] = &v\<close> stores a pointer to a copy of the declaration that nothing
  writes to afterwards; the model stores the copy. The newest entry of a name comes
  first and is the one a lookup finds.
\<close>

definition push :: "('c, 'a) Decl \<Rightarrow> ('c, 'a) File \<Rightarrow> ('c, 'a) File" where
  "push val f0 =
     (let f = f0\<lparr>Tree := Tree f0 @ [val]\<rparr> in
      case val of
        PackageD v \<Rightarrow> f\<lparr>Package := pkName v\<rparr>
      | ImportD v \<Rightarrow> f\<lparr>ImportedFiles := ImportedFiles f @ [Clean (imPath v)]\<rparr>
      | MessageD v \<Rightarrow> f\<lparr>DeclaredMessages := DeclaredMessages f @ [mName v],
                         declaredNames := (mName v, val) # declaredNames f\<rparr>
      | ServiceD v \<Rightarrow> f\<lparr>DeclaredServices := DeclaredServices f @ [svName v],
                         declaredNames := (svName v, val) # declaredNames f\<rparr>)"

definition isImported :: "('c, 'a) File \<Rightarrow> string \<Rightarrow> bool" where
  "isImported f path = (Clean path \<in> set (ImportedFiles f))"

definition isDefined :: "('c, 'a) File \<Rightarrow> string \<Rightarrow> bool" where
  "isDefined f name = (map_of (declaredNames f) name \<noteq> None)"

definition MessageByName :: "('c, 'a) File \<Rightarrow> string \<Rightarrow> ('c, 'a) Message option" where
  "MessageByName f name =
     (case map_of (declaredNames f) name of Some (MessageD m) \<Rightarrow> Some m | _ \<Rightarrow> None)"

definition ServiceByName :: "('c, 'a) File \<Rightarrow> string \<Rightarrow> ('c, 'a) Service option" where
  "ServiceByName f name =
     (case map_of (declaredNames f) name of Some (ServiceD s) \<Rightarrow> Some s | _ \<Rightarrow> None)"

section \<open>Parser (tokenlist.go, parser.go)\<close>

subsection \<open>The token cursor\<close>

record tokenList =
  tl_tokens :: "Token list"
  tokensLen :: nat
  tl_current :: nat

definition eofToken :: Token where
  "eofToken = \<lparr>tType = EOF, tValue = [], tLine = 0, tColumn = 0\<rparr>"

definition tokenList_peek :: "tokenList \<Rightarrow> Token" where
  "tokenList_peek t =
     (if tl_current t \<ge> tokensLen t then eofToken else tl_tokens t ! tl_current t)"

text \<open>\<^verbatim>\<open>peekPrevious\<close> indexes the token slice with no check of its own.\<close>

definition tokenList_peekPrevious :: "tokenList \<Rightarrow> error + Token" where
  "tokenList_peekPrevious t =
     (let i = (if tl_current t = 0 then tl_current t else tl_current t - 1)
      in if i < length (tl_tokens t) then Inr (tl_tokens t ! i)
         else Inl (RuntimePanic IndexOutOfRange))"

definition tokenList_advance :: "tokenList \<Rightarrow> Token \<times> tokenList" where
  "tokenList_advance t = (tokenList_peek t, t\<lparr>tl_current := tl_current t + 1\<rparr>)"

definition tokenList_error :: "tokenList \<Rightarrow> string \<Rightarrow> error" where
  "tokenList_error t msg = ParseError (tokenList_peek t) msg"

subsection \<open>The parser state\<close>

text \<open>
  Besides the four fields of the Go struct, the state holds the two heaps of backing
  arrays (one for \<^verbatim>\<open>[]AnnotationValue\<close>, one for \<^verbatim>\<open>[]string\<close> comments) and the
  runtime's choice of spare capacity \<open>grow\<close>. The slice \<^verbatim>\<open>vals\<close> of an annotation's values is
  made anew for every annotation and never written to again, so it is kept as the list
  it holds.
\<close>

record parser =
  annotations :: slice
  comments :: slice
  file' :: "(slice, slice) File"
  toks :: tokenList
  aheap :: "string list AnnotationValue heap"
  cheap :: "string heap"
  grow :: "nat \<Rightarrow> nat \<Rightarrow> nat"

type_synonym members = "(slice, slice) Member list"

definition newParser :: "(nat \<Rightarrow> nat \<Rightarrow> nat) \<Rightarrow> Token list \<Rightarrow> parser" where
  "newParser g ts =
     \<lparr>annotations = nilSlice, comments = nilSlice, file' = emptyFile,
      toks = \<lparr>tl_tokens = ts, tokensLen = length ts, tl_current = 0\<rparr>,
      aheap = [], cheap = [], grow = g\<rparr>"

definition peekT :: "parser \<Rightarrow> Token" where
  "peekT p = tokenList_peek (toks p)"

definition peekIs :: "parser \<Rightarrow> Element \<Rightarrow> bool" where
  "peekIs p k = is' (peekT p) k"

definition peekPreviousT :: "parser \<Rightarrow> error + Token" where
  "peekPreviousT p = tokenList_peekPrevious (toks p)"

definition advanceT :: "parser \<Rightarrow> Token \<times> parser" where
  "advanceT p = (fst (tokenList_advance (toks p)), p\<lparr>toks := snd (tokenList_advance (toks p))\<rparr>)"

definition errorT :: "parser \<Rightarrow> string \<Rightarrow> error" where
  "errorT p msg = tokenList_error (toks p) msg"

definition quoted :: "string \<Rightarrow> string" where
  "quoted s = CHR 0x27 # s @ [CHR 0x27]"

definition flushMeta :: "parser \<Rightarrow> parser" where
  "flushMeta p = p\<lparr>comments := truncate0 (comments p), annotations := truncate0 (annotations p)\<rparr>"

definition zeroAnnotation :: "string list AnnotationValue" where
  "zeroAnnotation = \<lparr>aOffset = zeroOffset, aName = [], aValue = []\<rparr>"

definition appendComment :: "parser \<Rightarrow> string \<Rightarrow> parser" where
  "appendComment p c =
     (case append (grow p) [] (cheap p) (comments p) c of
        (h, s) \<Rightarrow> p\<lparr>cheap := h, comments := s\<rparr>)"

definition appendAnnotation :: "parser \<Rightarrow> string list AnnotationValue \<Rightarrow> parser" where
  "appendAnnotation p a =
     (case append (grow p) zeroAnnotation (aheap p) (annotations p) a of
        (h, s) \<Rightarrow> p\<lparr>aheap := h, annotations := s\<rparr>)"

definition remaining :: "parser \<Rightarrow> nat" where
  "remaining p = tokensLen (toks p) - tl_current (toks p)"

lemma remaining_flushMeta [simp]: "remaining (flushMeta p) = remaining p"
  by (simp add: remaining_def flushMeta_def)

lemma remaining_appendComment [simp]: "remaining (appendComment p c) = remaining p"
  by (simp add: remaining_def appendComment_def split: prod.splits)

lemma remaining_appendAnnotation [simp]: "remaining (appendAnnotation p a) = remaining p"
  by (simp add: remaining_def appendAnnotation_def split: prod.splits)

lemma remaining_file_update [simp]: "remaining (p\<lparr>file' := f\<rparr>) = remaining p"
  by (simp add: remaining_def)

lemma remaining_advanceT [simp]: "remaining (snd (advanceT p)) = remaining p - 1"
  by (simp add: remaining_def advanceT_def tokenList_advance_def)

lemma advanceT_remaining: "advanceT p = (t, p') \<Longrightarrow> remaining p' = remaining p - 1"
  using remaining_advanceT[of p] by simp

lemma peekIs_flushMeta [simp]: "peekIs (flushMeta p) k = peekIs p k"
  by (simp add: peekIs_def peekT_def flushMeta_def)

lemma peekIs_remaining: "peekIs p k \<Longrightarrow> k \<noteq> EOF \<Longrightarrow> 0 < remaining p"
  by (auto simp: peekIs_def peekT_def is'_def tokenList_peek_def eofToken_def remaining_def
      split: if_splits)

lemma peekT_remaining: "tType (peekT p) = k \<Longrightarrow> k \<noteq> EOF \<Longrightarrow> 0 < remaining p"
  using peekIs_remaining by (simp add: peekIs_def is'_def)

subsection \<open>Shared loops\<close>

text \<open>
  The loop \<^verbatim>\<open>for peek().is(Identifier) || peek().is(Dot) { v = append(v, advance().Value) }\<close>
  of \<^verbatim>\<open>parsePackage\<close>, \<^verbatim>\<open>parseType\<close> and \<^verbatim>\<open>parseMethod\<close>.
\<close>

function dottedLoop :: "parser \<Rightarrow> string list \<Rightarrow> string list \<times> parser" where
  "dottedLoop p v =
     (if peekIs p Identifier \<or> peekIs p Dot
      then dottedLoop (snd (advanceT p)) (v @ [tValue (fst (advanceT p))])
      else (v, p))"
  by pat_completeness auto
termination
  by (relation "measure (\<lambda>(p, v). remaining p)") (auto dest: peekIs_remaining)

declare dottedLoop.simps [simp del]

lemma dottedLoop_mono: "dottedLoop p v = (v', p') \<Longrightarrow> remaining p' \<le> remaining p"
proof (induction p v rule: dottedLoop.induct)
  case (1 p v)
  show ?case
  proof (cases "peekIs p Identifier \<or> peekIs p Dot")
    case True
    with "1.prems" have "dottedLoop (snd (advanceT p)) (v @ [tValue (fst (advanceT p))]) = (v', p')"
      by (subst (asm) dottedLoop.simps) simp
    from "1.IH"[OF True this] show ?thesis by simp
  next
    case False
    with "1.prems" show ?thesis by (subst (asm) dottedLoop.simps) simp
  qed
qed

subsection \<open>parseOne\<close>

text \<open>
  The loop over the values of an annotation leaves at a closing parenthesis only. Once
  the cursor is past the last token, \<^verbatim>\<open>peek\<close> yields the end-of-input sentinel for ever,
  which is neither a parenthesis nor a comma: the Go loop then appends to \<^verbatim>\<open>val\<close> without
  end and the call does not return (\<open>NeverReturns\<close>; \<open>annotationValues_past_end\<close>
  below is the step of that argument).
\<close>

function annotationValues ::
  "parser \<Rightarrow> string list \<Rightarrow> string list \<Rightarrow> error + (string list \<times> string list \<times> parser)" where
  "annotationValues p vals val =
     (if remaining p = 0 then Inl NeverReturns
      else if peekIs p CloseParen then Inr (vals, val, p)
      else if peekIs p Comma then
        (if length vals = 0 then Inl (errorT p ''expected value'')
         else annotationValues (snd (advanceT p)) (vals @ [joinWith '' '' val]) [])
      else annotationValues (snd (advanceT p)) vals (val @ [tValue (fst (advanceT p))]))"
  by pat_completeness auto
termination
  by (relation "measure (\<lambda>(p, vals, val). remaining p)") auto

declare annotationValues.simps [simp del]

lemma annotationValues_past_end:
  assumes "remaining p = 0"
  shows "\<not> peekIs p CloseParen \<and> \<not> peekIs p Comma \<and> remaining (snd (advanceT p)) = 0"
  using assms
  by (auto simp: remaining_def peekIs_def peekT_def is'_def tokenList_peek_def eofToken_def
      advanceT_def tokenList_advance_def)

lemma annotationValues_mono:
  "annotationValues p vals val = Inr (vals', val', p') \<Longrightarrow> remaining p' \<le> remaining p"
proof (induction p vals val rule: annotationValues.induct)
  case (1 p vals val)
  note pr = "1.prems"[unfolded annotationValues.simps[of p vals val]]
  show ?case
  proof (cases "remaining p = 0")
    case True
    with pr show ?thesis by simp
  next
    case r: False
    show ?thesis
    proof (cases "peekIs p CloseParen")
      case True
      with pr r show ?thesis by simp
    next
      case c: False
      show ?thesis
      proof (cases "peekIs p Comma")
        case True
        with pr r c have nz: "length vals \<noteq> 0" by (auto split: if_splits)
        with pr r c True
        have "annotationValues (snd (advanceT p)) (vals @ [joinWith '' '' val]) [] = Inr (vals', val', p')"
          by simp
        from "1.IH"(1)[OF r c True nz this] show ?thesis by simp
      next
        case False
        with pr r c
        have "annotationValues (snd (advanceT p)) vals (val @ [tValue (fst (advanceT p))]) = Inr (vals', val', p')"
          by simp
        from "1.IH"(2)[OF r c False this] show ?thesis by simp
      qed
    qed
  qed
qed

text \<open>
  \<^verbatim>\<open>parseOne(or)\<close>. The callback \<open>or'\<close> works on the parser and on the list or record its
  closure appends to (\<open>'x\<close>).
\<close>

definition parseOne ::
  "('x \<times> parser \<Rightarrow> error + 'x \<times> parser) \<Rightarrow> 'x \<times> parser \<Rightarrow> error + 'x \<times> parser" where
  "parseOne or' xp =
     (case xp of (x, p) \<Rightarrow>
      if tType (peekT p) = LineBreak then
        (case peekPreviousT p of Inl e \<Rightarrow> Inl e
         | Inr prev \<Rightarrow>
             Inr (x, snd (advanceT (if is' prev LineBreak then flushMeta p else p))))
      else if tType (peekT p) = Annotation then
        (case advanceT p of (startTok, p1) \<Rightarrow>
          (case (if peekIs p1 OpenParen
                 then (case annotationValues p1 [] [] of Inl e \<Rightarrow> Inl e
                       | Inr (vals, val, p2) \<Rightarrow>
                           Inr (if length val > 0 then vals @ [joinWith '' '' val] else vals,
                                fst (advanceT p2), snd (advanceT p2)))
                 else Inr ([], startTok, p1)) of
             Inl e \<Rightarrow> Inl e
           | Inr (vals, end', p3) \<Rightarrow>
               Inr (x, appendAnnotation p3
                         \<lparr>aOffset = offsetBetween startTok end', aName = tValue startTok,
                          aValue = vals\<rparr>)))
      else if tType (peekT p) = Comment then
        (case peekPreviousT p of Inl e \<Rightarrow> Inl e
         | Inr prev \<Rightarrow>
             (case advanceT p of (t, p1) \<Rightarrow>
                Inr (x, if is' prev LineBreak then appendComment p1 (tValue t) else p1)))
      else or' xp)"

lemma parseOne_progress:
  assumes "parseOne or' xp = Inr xp'"
    and "\<And>y. or' xp = Inr y \<Longrightarrow> remaining (snd y) < remaining (snd xp)"
  shows "remaining (snd xp') < remaining (snd xp)"
proof -
  obtain x p where xp: "xp = (x, p)" by (cases xp)
  consider (lb) "tType (peekT p) = LineBreak" | (an) "tType (peekT p) = Annotation"
    | (co) "tType (peekT p) = Comment"
    | (other) "tType (peekT p) \<noteq> LineBreak" "tType (peekT p) \<noteq> Annotation"
        "tType (peekT p) \<noteq> Comment"
    by blast
  then show ?thesis
  proof cases
    case lb
    from peekT_remaining[OF lb] have "0 < remaining p" by simp
    with assms(1) lb xp show ?thesis
      by (auto simp: parseOne_def split: sum.splits if_splits)
  next
    case an
    from peekT_remaining[OF an] have r: "0 < remaining p" by simp
    from assms(1) an xp show ?thesis
      using r
      by (auto simp: parseOne_def split: sum.splits if_splits prod.splits
          dest!: annotationValues_mono advanceT_remaining)
  next
    case co
    from peekT_remaining[OF co] have "0 < remaining p" by simp
    with assms(1) co xp show ?thesis
      by (auto simp: parseOne_def split: sum.splits if_splits prod.splits
          dest!: advanceT_remaining)
  next
    case other
    with assms(1) xp have "or' xp = Inr xp'" by (simp add: parseOne_def)
    from assms(2)[OF this] show ?thesis .
  qed
qed

subsection \<open>parsePackage and parseImports\<close>

function skipTrivia :: "parser \<Rightarrow> parser" where
  "skipTrivia p =
     (if peekIs p LineBreak \<or> peekIs p Comment then skipTrivia (snd (advanceT p)) else p)"
  by pat_completeness auto
termination
  by (relation "measure remaining") (auto dest: peekIs_remaining)

declare skipTrivia.simps [simp del]

definition parsePackage :: "parser \<Rightarrow> error + parser" where
  "parsePackage p0 =
     (let p = skipTrivia p0 in
      if \<not> peekIs p Identifier then Inl (errorT p ''expected identifier'')
      else if tValue (peekT p) \<noteq> ''package''
      then Inl (errorT p (''unexpected '' @ tValue (peekT p) @ '', expected package identifier''))
      else (case advanceT p of (startTok, p1) \<Rightarrow>
             (case advanceT p1 of (n, p2) \<Rightarrow>
               (case dottedLoop p2 [tValue n] of (pName, p3) \<Rightarrow>
                  if \<not> peekIs p3 Semi then Inl (errorT p3 (''expected '' @ quoted '';''))
                  else (case advanceT p3 of (end', p4) \<Rightarrow>
                          Inr (p4\<lparr>file' := push (PackageD \<lparr>pkOffset = offsetBetween startTok end',
                                                               pkName = concat pName\<rparr>)
                                               (file' p4)\<rparr>))))))"

function importsSkip :: "parser \<Rightarrow> error + parser" where
  "importsSkip p =
     (if peekIs p LineBreak then
        (case peekPreviousT p of Inl e \<Rightarrow> Inl e
         | Inr prev \<Rightarrow>
             importsSkip (snd (advanceT (if is' prev LineBreak then flushMeta p else p))))
      else if peekIs p Comment
      then importsSkip (appendComment (snd (advanceT p)) (tValue (fst (advanceT p))))
      else Inr p)"
  by pat_completeness auto
termination
  by (relation "measure remaining") (auto dest: peekIs_remaining)

declare importsSkip.simps [simp del]

lemma importsSkip_mono: "importsSkip p = Inr p' \<Longrightarrow> remaining p' \<le> remaining p"
proof (induction p rule: importsSkip.induct)
  case (1 p)
  note pr = "1.prems"[unfolded importsSkip.simps[of p]]
  show ?case
  proof (cases "peekIs p LineBreak")
    case True
    with pr obtain prev where pv: "peekPreviousT p = Inr prev"
      and l: "importsSkip (snd (advanceT (if is' prev LineBreak then flushMeta p else p))) = Inr p'"
      by (auto split: sum.splits)
    from "1.IH"(1)[OF True pv l] show ?thesis by (simp split: if_splits)
  next
    case nl: False
    show ?thesis
    proof (cases "peekIs p Comment")
      case True
      with pr nl
      have "importsSkip (appendComment (snd (advanceT p)) (tValue (fst (advanceT p)))) = Inr p'"
        by simp
      from "1.IH"(2)[OF nl True this] show ?thesis by simp
    next
      case False
      with pr nl show ?thesis by simp
    qed
  qed
qed

function parseImports :: "parser \<Rightarrow> error + parser" where
  "parseImports p0 =
     (case importsSkip p0 of Inl e \<Rightarrow> Inl e
      | Inr p \<Rightarrow>
          if \<not> peekIs p Identifier then Inr p
          else if tValue (peekT p) \<noteq> ''import'' then Inr p
          else (let startTok = fst (advanceT (flushMeta p)); p1 = snd (advanceT (flushMeta p)) in
            if \<not> peekIs p1 StringElement then Inl (errorT p1 ''expected string'')
            else (let path = tValue (fst (advanceT p1)); p2 = snd (advanceT p1) in
              if isImported (file' p2) path then Inl (errorT p2 ''duplicated import'')
              else if \<not> peekIs p2 Semi then Inl (errorT p2 (''expected '' @ quoted '';''))
              else (let end' = fst (advanceT p2); p3 = snd (advanceT p2) in
                parseImports
                  (p3\<lparr>file' := push (ImportD \<lparr>imOffset = offsetBetween startTok end',
                                               imPath = path\<rparr>) (file' p3)\<rparr>)))))"
  by pat_completeness auto
termination
  by (relation "measure remaining") (auto dest!: importsSkip_mono peekIs_remaining)

declare parseImports.simps [simp del]

subsection \<open>Types\<close>

definition primitiveNames :: "(string \<times> PrimitiveType) list" where
  "primitiveNames =
     [(''string'', String), (''uint8'', Uint8), (''uint16'', Uint16), (''uint32'', Uint32),
      (''uint64'', Uint64), (''int8'', Int8), (''int16'', Int16), (''int32'', Int32),
      (''int64'', Int64), (''float32'', Float32), (''float64'', Float64), (''bool'', Bool)]"

definition stringToPrimitive :: "string \<Rightarrow> PrimitiveType option" where
  "stringToPrimitive = map_of primitiveNames"

text \<open>
  The message of \<^verbatim>\<open>parseMapKey\<close> lists the names of the table; Go walks a map in an
  order it does not specify, the model lists them in the order of the table.
\<close>

definition parseMapKey :: "parser \<Rightarrow> error + PrimitiveType \<times> parser" where
  "parseMapKey p =
     (if \<not> peekIs p Identifier then Inl (errorT p ''unexpected token'')
      else (case advanceT p of (k, p1) \<Rightarrow>
        (case stringToPrimitive (tValue k) of
           None \<Rightarrow>
             Inl (errorT p1 (''invalid type for map key, expected one of '' @
                              joinWith '', '' (map fst primitiveNames)))
         | Some v \<Rightarrow>
             if v = Bool
             then Inl (errorT p1 (''invalid type for map key, expected one of '' @
                                   joinWith '', '' (map fst primitiveNames)))
             else Inr (v, p1))))"

lemma parseMapKey_progress: "parseMapKey p = Inr (k, p') \<Longrightarrow> remaining p' < remaining p"
  by (auto simp: parseMapKey_def split: if_splits prod.splits option.splits
      dest!: advanceT_remaining peekIs_remaining)

function parseType :: "parser \<Rightarrow> error + Type \<times> parser"
  and parseMapType :: "parser \<Rightarrow> error + Type \<times> parser"
  and parseArrayType :: "parser \<Rightarrow> error + Type \<times> parser" where
  "parseType p =
     (if \<not> peekIs p Identifier then Inl (errorT p ''unexpected token'')
      else (let t = tValue (fst (advanceT p)); p1 = snd (advanceT p) in
        case stringToPrimitive t of
          Some v \<Rightarrow> Inr (Primitive v, p1)
        | None \<Rightarrow>
            if t = ''array'' then parseArrayType p1
            else if t = ''map'' then parseMapType p1
            else (case dottedLoop p1 [t] of (v, p2) \<Rightarrow> Inr (Unresolved (concat v), p2))))"
| "parseMapType p =
     (case parseMapKey p of Inl e \<Rightarrow> Inl e
      | Inr (k, p1) \<Rightarrow>
          if \<not> peekIs p1 Comma then Inl (Errorf (''expected '' @ quoted '',''))
          else (case parseType (snd (advanceT p1)) of Inl e \<Rightarrow> Inl e
                | Inr (v, p2) \<Rightarrow>
                    if \<not> peekIs p2 CloseAngled then Inl (Errorf (''expected '' @ quoted ''>''))
                    else Inr (Map k v, snd (advanceT p2))))"
| "parseArrayType p =
     (if \<not> peekIs p OpenAngled then Inl (errorT p (''expected '' @ [CHR 0x27] @ ''<''))
      else (case parseType (snd (advanceT p)) of Inl e \<Rightarrow> Inl e
            | Inr (t, p2) \<Rightarrow>
                if \<not> peekIs p2 CloseAngled
                then Inl (errorT p2 (''expected '' @ [CHR 0x27] @ ''>''))
                else Inr (Array t, snd (advanceT p2))))"
  by pat_completeness auto
termination
  by (relation "measure (\<lambda>x. case x of Inl p \<Rightarrow> remaining p | Inr (Inl p) \<Rightarrow> remaining p
                               | Inr (Inr p) \<Rightarrow> remaining p)")
    (auto dest!: peekIs_remaining parseMapKey_progress)

declare parseType.simps [simp del] parseMapType.simps [simp del] parseArrayType.simps [simp del]

lemma parseType_mono_all:
  "(\<forall>t p'. parseType p = Inr (t, p') \<longrightarrow> remaining p' \<le> remaining p) \<and>
   (\<forall>t p'. parseMapType p = Inr (t, p') \<longrightarrow> remaining p' \<le> remaining p) \<and>
   (\<forall>t p'. parseArrayType p = Inr (t, p') \<longrightarrow> remaining p' \<le> remaining p)"
proof -
  have "(\<forall>t p'. parseType p = Inr (t, p') \<longrightarrow> remaining p' \<le> remaining p)"
    and "(\<forall>t p'. parseMapType q = Inr (t, p') \<longrightarrow> remaining p' \<le> remaining q)"
    and "(\<forall>t p'. parseArrayType r = Inr (t, p') \<longrightarrow> remaining p' \<le> remaining r)" for p q r
  proof (induction p and q and r rule: parseType_parseMapType_parseArrayType.induct)
    case (1 p)
    show ?case
      apply (subst parseType.simps)
      using 1
      apply (auto simp: Let_def split: option.splits prod.splits dest!: dottedLoop_mono)
      done
  next
    case (2 p)
    show ?case
    proof (intro allI impI)
      fix t p'
      assume "parseMapType p = Inr (t, p')"
      then obtain k p1 v p2 where mk: "parseMapKey p = Inr (k, p1)"
        and c: "peekIs p1 Comma"
        and pt: "parseType (snd (advanceT p1)) = Inr (v, p2)"
        and e: "p' = snd (advanceT p2)"
        by (subst (asm) parseMapType.simps) (auto split: sum.splits prod.splits if_splits)
      from c have "\<not> \<not> peekIs p1 Comma" by simp
      from 2[OF mk refl this] pt have "remaining p2 \<le> remaining (snd (advanceT p1))" by blast
      with parseMapKey_progress[OF mk] e show "remaining p' \<le> remaining p" by simp
    qed
  next
    case (3 p)
    show ?case
    proof (intro allI impI)
      fix t p'
      assume "parseArrayType p = Inr (t, p')"
      then obtain v p2 where c: "peekIs p OpenAngled"
        and pt: "parseType (snd (advanceT p)) = Inr (v, p2)"
        and e: "p' = snd (advanceT p2)"
        by (subst (asm) parseArrayType.simps) (auto split: sum.splits prod.splits if_splits)
      from c have "\<not> \<not> peekIs p OpenAngled" by simp
      from 3[OF this] pt have "remaining p2 \<le> remaining (snd (advanceT p))" by blast
      with e show "remaining p' \<le> remaining p" by simp
    qed
  qed
  then show ?thesis by blast
qed

lemma parseType_mono: "parseType p = Inr (t, p') \<Longrightarrow> remaining p' \<le> remaining p"
  using parseType_mono_all by blast

subsection \<open>Fields and oneof groups\<close>

text \<open>
  \<^verbatim>\<open>strconv.Atoi\<close> on a 64-bit platform: an optional sign, then decimal digits only, and
  a value that fits a signed 64-bit integer.
\<close>

definition Atoi :: "string \<Rightarrow> error + int" where
  "Atoi s =
     (let neg = (s \<noteq> [] \<and> hd s = CHR ''-'');
          ds = (if s \<noteq> [] \<and> (hd s = CHR ''-'' \<or> hd s = CHR ''+'') then tl s else s);
          n = foldl (\<lambda>a c. 10 * a + (int (rune c) - 48)) 0 ds
      in if ds = [] \<or> \<not> list_all IsDigit ds then Inl (NumError s)
         else if (neg \<and> n > 2 ^ 63) \<or> (\<not> neg \<and> n \<ge> 2 ^ 63) then Inl (NumError s)
         else Inr (if neg then - n else n))"

definition parseIndex :: "parser \<Rightarrow> error + int \<times> parser" where
  "parseIndex p =
     (if \<not> peekIs p Equal then Inl (errorT p (''expected '' @ quoted ''=''))
      else (case advanceT p of (eq, p1) \<Rightarrow>
        if \<not> peekIs p1 Number then Inl (errorT p1 ''expected number'')
        else (case advanceT p1 of (n, p2) \<Rightarrow>
          (case Atoi (tValue n) of Inl e \<Rightarrow> Inl e | Inr i \<Rightarrow> Inr (i, p2)))))"

lemma parseIndex_mono: "parseIndex p = Inr (i, p') \<Longrightarrow> remaining p' \<le> remaining p"
  by (auto simp: parseIndex_def split: if_splits prod.splits sum.splits
      dest!: advanceT_remaining)

text \<open>
  The part of \<^verbatim>\<open>parseStructureField\<close> after the test for \<^verbatim>\<open>oneof\<close>: a name, a type, an
  index and a semicolon. The new \<^verbatim>\<open>Field\<close> takes the parser's two slices as they are
  (pointer, length, capacity); \<^verbatim>\<open>flushMeta\<close> then cuts the parser's own to length 0.
\<close>

definition parseField :: "members \<Rightarrow> parser \<Rightarrow> error + members \<times> parser" where
  "parseField arr p =
     (case advanceT p of (fNameTok, p1) \<Rightarrow>
       (case parseType p1 of Inl e \<Rightarrow> Inl e
        | Inr (fTy, p2) \<Rightarrow>
           (case parseIndex p2 of Inl e \<Rightarrow> Inl e
            | Inr (fIdx, p3) \<Rightarrow>
                if \<not> peekIs p3 Semi then Inl (errorT p3 (''expected '' @ quoted '';''))
                else (case advanceT p3 of (end', p4) \<Rightarrow>
                  Inr (arr @ [Field (offsetBetween fNameTok end') (tValue fNameTok)
                                (comments p4) (annotations p4) fTy fIdx],
                       flushMeta p4)))))"

lemma parseField_mono:
  "parseField arr p = Inr (arr', p') \<Longrightarrow> remaining p' \<le> remaining p - 1"
  by (auto simp: parseField_def split: if_splits prod.splits sum.splits
      dest!: advanceT_remaining parseType_mono parseIndex_mono)

text \<open>
  \<^verbatim>\<open>parseStructureField(arr, false)\<close>, the call made from inside a oneof group: it never
  reaches \<^verbatim>\<open>parseOneOf\<close>. It is defined first, so that the loop of \<^verbatim>\<open>parseOneOf\<close> can
  use it; \<open>parseStructureField_False\<close> below shows that it is \<^verbatim>\<open>parseStructureField\<close>
  at \<^verbatim>\<open>allowOneOf = false\<close>.
\<close>

definition parseStructureField_noOneOf :: "members \<times> parser \<Rightarrow> error + members \<times> parser" where
  "parseStructureField_noOneOf ap =
     (case ap of (arr, p) \<Rightarrow>
      if \<not> peekIs p Identifier then Inl (errorT p ''expected identifier'')
      else if tValue (peekT p) = ''oneof''
      then Inl (errorT p ''oneof field is not allowed at this point'')
      else parseField arr p)"

lemma parseStructureField_noOneOf_progress:
  "parseStructureField_noOneOf ap = Inr ap' \<Longrightarrow> remaining (snd ap') < remaining (snd ap)"
  by (cases ap; cases ap')
    (auto simp: parseStructureField_noOneOf_def split: if_splits
      dest!: parseField_mono peekIs_remaining)

function oneOfLoop :: "members \<times> parser \<Rightarrow> error + members \<times> parser" where
  "oneOfLoop ap =
     (if \<not> peekIs (snd ap) CloseCurly
      then (case parseOne parseStructureField_noOneOf ap of Inl e \<Rightarrow> Inl e
            | Inr ap' \<Rightarrow> oneOfLoop ap')
      else Inr ap)"
  by pat_completeness auto
termination
  by (relation "measure (\<lambda>ap. remaining (snd ap))")
    (auto dest: parseOne_progress parseStructureField_noOneOf_progress)

declare oneOfLoop.simps [simp del]

lemma oneOfLoop_mono: "oneOfLoop ap = Inr ap' \<Longrightarrow> remaining (snd ap') \<le> remaining (snd ap)"
proof (induction ap rule: oneOfLoop.induct)
  case (1 ap)
  show ?case
  proof (cases "peekIs (snd ap) CloseCurly")
    case True
    with "1.prems" show ?thesis by (subst (asm) oneOfLoop.simps) simp
  next
    case False
    with "1.prems" obtain ap1 where a: "parseOne parseStructureField_noOneOf ap = Inr ap1"
      and l: "oneOfLoop ap1 = Inr ap'"
      by (subst (asm) oneOfLoop.simps) (auto split: sum.splits)
    from parseOne_progress[OF a] parseStructureField_noOneOf_progress
    have "remaining (snd ap1) < remaining (snd ap)" by blast
    with "1.IH"[OF False a l] show ?thesis by simp
  qed
qed

definition parseOneOf :: "members \<Rightarrow> parser \<Rightarrow> error + members \<times> parser" where
  "parseOneOf arr p =
     (case advanceT p of (startTok, p1) \<Rightarrow>
      if \<not> peekIs p1 OpenCurly then Inl (errorT p1 (''expected '' @ quoted ''{''))
      else (case advanceT p1 of (curly, p2) \<Rightarrow>
        (case oneOfLoop ([], flushMeta p2) of Inl e \<Rightarrow> Inl e
         | Inr (items, p3) \<Rightarrow>
            (case advanceT p3 of (closeCurly, p4) \<Rightarrow>
              (case parseIndex p4 of Inl e \<Rightarrow> Inl e
               | Inr (idx, p5) \<Rightarrow>
                   if \<not> peekIs p5 Semi then Inl (errorT p5 (''expected '' @ quoted '';''))
                   else (case advanceT p5 of (end', p6) \<Rightarrow>
                     Inr (arr @ [OneOfField (offsetBetween startTok end') (comments p2)
                                   (annotations p2) idx items],
                          p6)))))))"

lemma parseOneOf_mono:
  "parseOneOf arr p = Inr (arr', p') \<Longrightarrow> remaining p' \<le> remaining p - 1"
  by (auto simp: parseOneOf_def split: if_splits prod.splits sum.splits
      dest!: advanceT_remaining oneOfLoop_mono parseIndex_mono)

definition parseStructureField :: "bool \<Rightarrow> members \<times> parser \<Rightarrow> error + members \<times> parser" where
  "parseStructureField allowOneOf ap =
     (case ap of (arr, p) \<Rightarrow>
      if \<not> peekIs p Identifier then Inl (errorT p ''expected identifier'')
      else if tValue (peekT p) = ''oneof''
      then (if \<not> allowOneOf then Inl (errorT p ''oneof field is not allowed at this point'')
            else parseOneOf arr p)
      else parseField arr p)"

lemma parseStructureField_False:
  "parseStructureField False = parseStructureField_noOneOf"
  by (rule ext) (auto simp: parseStructureField_def parseStructureField_noOneOf_def)

lemma parseStructureField_progress:
  "parseStructureField b ap = Inr ap' \<Longrightarrow> remaining (snd ap') < remaining (snd ap)"
  by (cases ap; cases ap')
    (auto simp: parseStructureField_def split: if_splits
      dest!: parseField_mono parseOneOf_mono peekIs_remaining)

subsection \<open>Messages\<close>

function messageLoop :: "members \<times> parser \<Rightarrow> error + members \<times> parser" where
  "messageLoop ap =
     (if \<not> peekIs (snd ap) CloseCurly
      then (case parseOne (parseStructureField True) ap of Inl e \<Rightarrow> Inl e
            | Inr ap' \<Rightarrow> messageLoop ap')
      else Inr ap)"
  by pat_completeness auto
termination
  by (relation "measure (\<lambda>ap. remaining (snd ap))")
    (auto dest: parseOne_progress parseStructureField_progress)

declare messageLoop.simps [simp del]

lemma messageLoop_mono: "messageLoop ap = Inr ap' \<Longrightarrow> remaining (snd ap') \<le> remaining (snd ap)"
proof (induction ap rule: messageLoop.induct)
  case (1 ap)
  show ?case
  proof (cases "peekIs (snd ap) CloseCurly")
    case True
    with "1.prems" show ?thesis by (subst (asm) messageLoop.simps) simp
  next
    case False
    with "1.prems" obtain ap1 where a: "parseOne (parseStructureField True) ap = Inr ap1"
      and l: "messageLoop ap1 = Inr ap'"
      by (subst (asm) messageLoop.simps) (auto split: sum.splits)
    from parseOne_progress[OF a] parseStructureField_progress
    have "remaining (snd ap1) < remaining (snd ap)" by blast
    with "1.IH"[OF False a l] show ?thesis by simp
  qed
qed

definition message :: "parser \<Rightarrow> error + parser" where
  "message p =
     (case advanceT p of (startTok, p1) \<Rightarrow>
      if \<not> peekIs p1 Identifier then Inl (errorT p1 ''expected identifier'')
      else if isDefined (file' p1) (tValue (peekT p1))
      then Inl (errorT p1 (tValue (peekT p1) @ '' is already defined''))
      else (case advanceT p1 of (nameTok, p2) \<Rightarrow>
        if \<not> peekIs p2 OpenCurly then Inl (errorT p2 (''expected '' @ quoted ''{''))
        else (case advanceT p2 of (curly, p3) \<Rightarrow>
          (case messageLoop ([], flushMeta p3) of Inl e \<Rightarrow> Inl e
           | Inr (flds, p4) \<Rightarrow>
              (case advanceT p4 of (end', p5) \<Rightarrow>
                Inr (p5\<lparr>file' := push (MessageD
                        \<lparr>mOffset = offsetBetween startTok end', mName = tValue nameTok,
                         mComments = comments p2, mAnnotations = annotations p2,
                         mFields = flds\<rparr>) (file' p5)\<rparr>))))))"

lemma message_mono: "message p = Inr p' \<Longrightarrow> remaining p' \<le> remaining p - 1"
  by (auto simp: message_def split: if_splits prod.splits sum.splits
      dest!: advanceT_remaining messageLoop_mono)


subsection \<open>Services\<close>

function argTypeLoop :: "parser \<Rightarrow> string \<Rightarrow> string \<times> parser" where
  "argTypeLoop p reqType =
     (if peekIs p Identifier \<or> peekIs p Dot
      then argTypeLoop (snd (advanceT p))
             (if reqType = ''void'' then tValue (fst (advanceT p))
              else reqType @ tValue (fst (advanceT p)))
      else (reqType, p))"
  by pat_completeness auto
termination
  by (relation "measure (\<lambda>(p, r). remaining p)") (auto dest: peekIs_remaining)

declare argTypeLoop.simps [simp del]

lemma argTypeLoop_mono: "argTypeLoop p r = (r', p') \<Longrightarrow> remaining p' \<le> remaining p"
proof (induction p r rule: argTypeLoop.induct)
  case (1 p r)
  show ?case
  proof (cases "peekIs p Identifier \<or> peekIs p Dot")
    case True
    with "1.prems"
    have "argTypeLoop (snd (advanceT p))
            (if r = ''void'' then tValue (fst (advanceT p)) else r @ tValue (fst (advanceT p)))
          = (r', p')"
      by (subst (asm) argTypeLoop.simps) simp
    from "1.IH"[OF True this] show ?thesis by simp
  next
    case False
    with "1.prems" show ?thesis by (subst (asm) argTypeLoop.simps) simp
  qed
qed

text \<open>The return clause of a method: \<^verbatim>\<open>-> [stream] RetType\<close>, absent before a semicolon.\<close>

definition parseReturn :: "parser \<Rightarrow> error + (string \<times> bool \<times> parser)" where
  "parseReturn p =
     (if \<not> peekIs p Semi then
        (if \<not> peekIs p Arrow then Inl (errorT p (''expected '' @ quoted ''->''))
         else (case advanceT p of (arrow, p1) \<Rightarrow>
           (case (if peekIs p1 Identifier \<and> tValue (peekT p1) = ''stream''
                  then (True, snd (advanceT p1)) else (False, p1)) of
              (stream, p2) \<Rightarrow>
                if \<not> peekIs p2 Identifier then Inl (errorT p2 ''expected identifier'')
                else (case dottedLoop p2 [] of (v, p3) \<Rightarrow> Inr (concat v, stream, p3)))))
      else Inr (''void'', False, p))"

lemma parseReturn_mono: "parseReturn p = Inr (r, st, p') \<Longrightarrow> remaining p' \<le> remaining p"
  by (auto simp: parseReturn_def split: if_splits prod.splits
      dest!: advanceT_remaining dottedLoop_mono)

type_synonym service = "(slice, slice) Service"

definition parseMethod :: "service \<times> parser \<Rightarrow> error + service \<times> parser" where
  "parseMethod sp =
     (case sp of (s, p) \<Rightarrow>
      if \<not> peekIs p Identifier then Inl (errorT p ''expected identifier'')
      else (case advanceT p of (nameTok, p1) \<Rightarrow>
        if \<not> peekIs p1 OpenParen then Inl (errorT p1 (''expected '' @ quoted ''(''))
        else (case advanceT p1 of (paren, p2) \<Rightarrow>
          if \<not> peekIs p2 Identifier \<and> \<not> peekIs p2 CloseParen
          then Inl (errorT p2 (''expected identifier or '' @ quoted '')''))
          else (case argTypeLoop p2 ''void'' of (reqType, p3) \<Rightarrow>
            if \<not> peekIs p3 CloseParen then Inl (errorT p3 (''expected '' @ quoted '')''))
            else (case advanceT p3 of (paren', p4) \<Rightarrow>
              (case parseReturn p4 of Inl e \<Rightarrow> Inl e
               | Inr (retType, stream, p5) \<Rightarrow>
                   if \<not> peekIs p5 Semi then Inl (errorT p5 (''expected '' @ quoted '';''))
                   else (case advanceT p5 of (end', p6) \<Rightarrow>
                     Inr (s\<lparr>Methods := Methods s @
                            [\<lparr>mtOffset = offsetBetween nameTok end', mtName = tValue nameTok,
                              mtComments = comments p6, mtAnnotations = annotations p6,
                              ArgumentType = reqType, ReturnType = retType,
                              ReturnStreaming = stream\<rparr>]\<rparr>,
                          flushMeta p6))))))))"

lemma parseMethod_progress:
  "parseMethod sp = Inr sp' \<Longrightarrow> remaining (snd sp') < remaining (snd sp)"
  by (cases sp; cases sp')
    (auto simp: parseMethod_def split: if_splits prod.splits sum.splits
      dest!: advanceT_remaining argTypeLoop_mono parseReturn_mono peekIs_remaining)

function serviceLoop :: "service \<times> parser \<Rightarrow> error + service \<times> parser" where
  "serviceLoop sp =
     (if \<not> peekIs (snd sp) CloseCurly
      then (case parseOne parseMethod sp of Inl e \<Rightarrow> Inl e | Inr sp' \<Rightarrow> serviceLoop sp')
      else Inr sp)"
  by pat_completeness auto
termination
  by (relation "measure (\<lambda>sp. remaining (snd sp))")
    (auto dest: parseOne_progress parseMethod_progress)

declare serviceLoop.simps [simp del]

lemma serviceLoop_mono: "serviceLoop sp = Inr sp' \<Longrightarrow> remaining (snd sp') \<le> remaining (snd sp)"
proof (induction sp rule: serviceLoop.induct)
  case (1 sp)
  show ?case
  proof (cases "peekIs (snd sp) CloseCurly")
    case True
    with "1.prems" show ?thesis by (subst (asm) serviceLoop.simps) simp
  next
    case False
    with "1.prems" obtain sp1 where a: "parseOne parseMethod sp = Inr sp1"
      and l: "serviceLoop sp1 = Inr sp'"
      by (subst (asm) serviceLoop.simps) (auto split: sum.splits)
    from parseOne_progress[OF a] parseMethod_progress
    have "remaining (snd sp1) < remaining (snd sp)" by blast
    with "1.IH"[OF False a l] show ?thesis by simp
  qed
qed

definition service :: "parser \<Rightarrow> error + parser" where
  "service p =
     (case advanceT p of (startTok, p1) \<Rightarrow>
      if \<not> peekIs p1 Identifier then Inl (errorT p1 ''expected identifier'')
      else if isDefined (file' p1) (tValue (peekT p1))
      then Inl (errorT p1 (tValue (peekT p1) @ '' is already defined''))
      else (case advanceT p1 of (nameTok, p2) \<Rightarrow>
        if \<not> peekIs p2 OpenCurly then Inl (errorT p2 (''expected '' @ quoted ''{''))
        else (case advanceT p2 of (curly, p3) \<Rightarrow>
          (case serviceLoop
                  (\<lparr>svOffset = zeroOffset, svName = tValue nameTok, svComments = comments p3,
                    svAnnotations = annotations p3, Methods = []\<rparr>, flushMeta p3) of
             Inl e \<Rightarrow> Inl e
           | Inr (s, p4) \<Rightarrow>
              (case advanceT p4 of (end', p5) \<Rightarrow>
                Inr (p5\<lparr>file' := push (ServiceD (s\<lparr>svOffset := offsetBetween startTok end'\<rparr>))
                                     (file' p5)\<rparr>))))))"

lemma service_mono: "service p = Inr p' \<Longrightarrow> remaining p' \<le> remaining p - 1"
  by (auto simp: service_def split: if_splits prod.splits sum.splits
      dest!: advanceT_remaining serviceLoop_mono)

subsection \<open>run and Parse\<close>

definition messageOrService :: "unit \<times> parser \<Rightarrow> error + unit \<times> parser" where
  "messageOrService up =
     (case up of (u, p) \<Rightarrow>
      if \<not> peekIs p Identifier then Inl (errorT p ''expected identifier'')
      else if tValue (peekT p) = ''message''
      then (case message p of Inl e \<Rightarrow> Inl e | Inr p' \<Rightarrow> Inr (u, p'))
      else if tValue (peekT p) = ''service''
      then (case service p of Inl e \<Rightarrow> Inl e | Inr p' \<Rightarrow> Inr (u, p'))
      else if tValue (peekT p) = ''import''
      then Inl (errorT p ''imports are only allowed in the beginning of the file, after the package directive.'')
      else Inl (errorT p (''unexpected `'' @ tValue (peekT p) @ CHR 0x27 # '', expected '' @
                          quoted ''message'' @ '', '' @ quoted ''service'')))"

lemma messageOrService_progress:
  "messageOrService up = Inr up' \<Longrightarrow> remaining (snd up') < remaining (snd up)"
  by (cases up; cases up')
    (auto simp: messageOrService_def split: if_splits sum.splits
      dest!: message_mono service_mono peekIs_remaining)

function runLoop :: "parser \<Rightarrow> error + parser" where
  "runLoop p =
     (if \<not> peekIs p EOF
      then (case parseOne messageOrService ((), p) of Inl e \<Rightarrow> Inl e
            | Inr up \<Rightarrow> runLoop (snd up))
      else Inr p)"
  by pat_completeness auto
termination
  by (relation "measure remaining")
    (auto dest!: parseOne_progress dest: messageOrService_progress)

declare runLoop.simps [simp del]

definition run :: "parser \<Rightarrow> error + parser" where
  "run p =
     (case parsePackage p of Inl e \<Rightarrow> Inl e
      | Inr p1 \<Rightarrow>
         (case parseImports p1 of Inl e \<Rightarrow> Inl e
          | Inr p2 \<Rightarrow> runLoop p2))"

text \<open>
  What a reader of the tree sees: every slice replaced by the list it denotes in the
  heaps as the parser left them.
\<close>

type_synonym annotationCollection = "string list AnnotationValue list"

fun resolveMember ::
  "string heap \<Rightarrow> string list AnnotationValue heap \<Rightarrow> (slice, slice) Member \<Rightarrow>
   (string list, annotationCollection) Member" where
  "resolveMember ch ah (Field off n c a t i) = Field off n (elems ch c) (elems ah a) t i"
| "resolveMember ch ah (OneOfField off c a i items) =
     OneOfField off (elems ch c) (elems ah a) i (map (resolveMember ch ah) items)"

definition resolveMessage ::
  "string heap \<Rightarrow> string list AnnotationValue heap \<Rightarrow> (slice, slice) Message \<Rightarrow>
   (string list, annotationCollection) Message" where
  "resolveMessage ch ah m =
     \<lparr>mOffset = mOffset m, mName = mName m, mComments = elems ch (mComments m),
      mAnnotations = elems ah (mAnnotations m),
      mFields = map (resolveMember ch ah) (mFields m)\<rparr>"

definition resolveMethod ::
  "string heap \<Rightarrow> string list AnnotationValue heap \<Rightarrow> (slice, slice) Method \<Rightarrow>
   (string list, annotationCollection) Method" where
  "resolveMethod ch ah m =
     \<lparr>mtOffset = mtOffset m, mtName = mtName m, mtComments = elems ch (mtComments m),
      mtAnnotations = elems ah (mtAnnotations m), ArgumentType = ArgumentType m,
      ReturnType = ReturnType m, ReturnStreaming = ReturnStreaming m\<rparr>"

definition resolveService ::
  "string heap \<Rightarrow> string list AnnotationValue heap \<Rightarrow> (slice, slice) Service \<Rightarrow>
   (string list, annotationCollection) Service" where
  "resolveService ch ah s =
     \<lparr>svOffset = svOffset s, svName = svName s, svComments = elems ch (svComments s),
      svAnnotations = elems ah (svAnnotations s),
      Methods = map (resolveMethod ch ah) (Methods s)\<rparr>"

fun resolveDecl ::
  "string heap \<Rightarrow> string list AnnotationValue heap \<Rightarrow> (slice, slice) Decl \<Rightarrow>
   (string list, annotationCollection) Decl" where
  "resolveDecl ch ah (PackageD v) = PackageD v"
| "resolveDecl ch ah (ImportD v) = ImportD v"
| "resolveDecl ch ah (MessageD v) = MessageD (resolveMessage ch ah v)"
| "resolveDecl ch ah (ServiceD v) = ServiceD (resolveService ch ah v)"

definition resolveFile ::
  "string heap \<Rightarrow> string list AnnotationValue heap \<Rightarrow> (slice, slice) File \<Rightarrow>
   (string list, annotationCollection) File" where
  "resolveFile ch ah f =
     \<lparr>Tree = map (resolveDecl ch ah) (Tree f), Package = Package f,
      DeclaredMessages = DeclaredMessages f, DeclaredServices = DeclaredServices f,
      ImportedFiles = ImportedFiles f,
      declaredNames = map (\<lambda>(n, d). (n, resolveDecl ch ah d)) (declaredNames f)\<rparr>"

type_synonym parsedFile = "(string list, annotationCollection) File"

definition Parse :: "(nat \<Rightarrow> nat \<Rightarrow> nat) \<Rightarrow> Token list \<Rightarrow> error + parsedFile" where
  "Parse g ts =
     (case run (newParser g ts) of Inl e \<Rightarrow> Inl e
      | Inr p \<Rightarrow> Inr (resolveFile (cheap p) (aheap p) (file' p)))"

text \<open>Scanning and parsing one source text, as \<^verbatim>\<open>findAndLoad\<close> does with a file.\<close>

definition scanAndParse :: "(nat \<Rightarrow> nat \<Rightarrow> nat) \<Rightarrow> string \<Rightarrow> error + parsedFile" where
  "scanAndParse g src = (case Scan src of Inl e \<Rightarrow> Inl e | Inr ts \<Rightarrow> Parse g ts)"

text \<open>Observations of a parsed file: the members of a message, and what a member carries.\<close>

definition membersOf :: "parsedFile \<Rightarrow> string \<Rightarrow> (string list, annotationCollection) Member list" where
  "membersOf f n = (case MessageByName f n of None \<Rightarrow> [] | Some m \<Rightarrow> mFields m)"

fun annotationsOf :: "(string list, annotationCollection) Member \<Rightarrow> (string \<times> string list) list" where
  "annotationsOf (Field off n c a t i) = map (\<lambda>v. (aName v, aValue v)) a"
| "annotationsOf (OneOfField off c a i items) = map (\<lambda>v. (aName v, aValue v)) a"

fun typeOf :: "(string list, annotationCollection) Member \<Rightarrow> Type option" where
  "typeOf (Field off n c a t i) = Some t"
| "typeOf (OneOfField off c a i items) = None"

section \<open>File sets (fileset.go)\<close>

subsection \<open>The file system\<close>

text \<open>
  What \<^verbatim>\<open>findAndLoad\<close> asks of the operating system is a parameter of the model: the
  working directory (\<^verbatim>\<open>os.Getwd\<close>, read by \<^verbatim>\<open>filepath.Abs\<close>), the outcome of
  \<^verbatim>\<open>os.Stat\<close> on a path, and the text \<^verbatim>\<open>os.Open\<close> and \<^verbatim>\<open>io.ReadAll\<close> give for it
  (\<open>Inl\<close> is an error of the system). \<open>growth\<close> is the allocation policy handed on to
  the parser.
\<close>

datatype statResult = NotExist | StatFailed string | IsDir | IsFile

record world =
  getwd :: "string + string"
  stat :: "string \<Rightarrow> statResult"
  readFile :: "string \<Rightarrow> string + string"
  growth :: "nat \<Rightarrow> nat \<Rightarrow> nat"

text \<open>\<^verbatim>\<open>filepath.Join\<close> of two elements, \<^verbatim>\<open>filepath.Dir\<close> and \<^verbatim>\<open>filepath.Abs\<close> (Unix).\<close>

definition Join :: "string \<Rightarrow> string \<Rightarrow> string" where
  "Join a b =
     (if a = [] \<and> b = [] then []
      else if a = [] then Clean b
      else if b = [] then Clean a
      else Clean (a @ ''/'' @ b))"

definition Dir :: "string \<Rightarrow> string" where
  "Dir path = Clean (rev (dropWhile (\<lambda>c. c \<noteq> CHR ''/'') (rev path)))"

definition Abs :: "world \<Rightarrow> string \<Rightarrow> error + string" where
  "Abs w path =
     (if IsAbs path then Inr (Clean path)
      else (case getwd w of Inl m \<Rightarrow> Inl (OSError m) | Inr wd \<Rightarrow> Inr (Join wd path)))"

subsection \<open>FileSet\<close>

type_synonym message = "(string list, annotationCollection) Message"
type_synonym service' = "(string list, annotationCollection) Service"

record FileSet =
  loadedFiles :: "string \<rightharpoonup> bool"
  knownServices :: "string \<rightharpoonup> bool"
  packageName :: string
  messages :: "string \<rightharpoonup> message"
  Messages :: "message list"
  Services :: "service' list"

definition NewFileSet :: FileSet where
  "NewFileSet =
     \<lparr>loadedFiles = Map.empty, knownServices = Map.empty, packageName = [],
      messages = Map.empty, Messages = [], Services = []\<rparr>"

definition registerMessage :: "FileSet \<Rightarrow> parsedFile \<Rightarrow> message \<Rightarrow> error + FileSet" where
  "registerMessage f file msg =
     (let fqn = Package file @ ''.'' @ mName msg in
      if messages f fqn \<noteq> None then Inl (Errorf (''duplicated definition of '' @ fqn))
      else Inr (f\<lparr>messages := (messages f)(fqn \<mapsto> msg)\<rparr>))"

definition isLoaded :: "FileSet \<Rightarrow> string \<Rightarrow> bool" where
  "isLoaded f path = (loadedFiles f path \<noteq> None)"

text \<open>
  \<^verbatim>\<open>findAndLoad\<close> returns a path, a pointer to a \<^verbatim>\<open>File\<close> and an error. For a path that
  is loaded already it returns the empty path, the nil pointer (\<open>None\<close>) and no error.
\<close>

definition findAndLoad :: "world \<Rightarrow> FileSet \<Rightarrow> string \<Rightarrow> error + (string \<times> parsedFile option)" where
  "findAndLoad w f path =
     (case Abs w path of Inl e \<Rightarrow> Inl e
      | Inr s \<Rightarrow>
         if isLoaded f s then Inr ([], None)
         else (case stat w s of
            StatFailed m \<Rightarrow> Inl (OSError m)
          | st \<Rightarrow>
             (case (if st = NotExist \<or> st = IsDir
                    then (if stat w (path @ ''.yarp'') = IsFile
                          then (IsFile, path @ ''.yarp'', True)
                          else (st, path, st \<noteq> NotExist))
                    else (st, s, True)) of
                (st', path', exist) \<Rightarrow>
                  if \<not> exist then Inl (SourceFileNotFoundError path')
                  else if st' = IsDir then Inl (SourceIsDirectoryError path')
                  else (case readFile w path' of Inl m \<Rightarrow> Inl (OSError m)
                        | Inr src \<Rightarrow>
                           (case scanAndParse (growth w) src of Inl e \<Rightarrow> Inl e
                            | Inr file \<Rightarrow> Inr (path', Some file))))))"

text \<open>
  A call that changes the set and may fail returns the error, if any, and the set as
  the call leaves it: the Go methods work on \<^verbatim>\<open>*FileSet\<close>, and what they have written
  before an error stays written.
\<close>

text \<open>The loop over \<^verbatim>\<open>file.DeclaredMessages\<close> in \<^verbatim>\<open>Load\<close>.\<close>

fun loadMessages :: "parsedFile \<Rightarrow> string \<Rightarrow> string list \<Rightarrow> FileSet \<Rightarrow> error option \<times> FileSet" where
  "loadMessages file finalPath [] f = (None, f)"
| "loadMessages file finalPath (n # ns) f =
     (case MessageByName file n of
        None \<Rightarrow> (Some (Errorf (''BUG: '' @ finalPath @ '' declares '' @ n @
                               '', but message could not be found'')), f)
      | Some m \<Rightarrow>
          (case registerMessage (f\<lparr>Messages := Messages f @ [m]\<rparr>) file m of
             Inl e \<Rightarrow> (Some e, f\<lparr>Messages := Messages f @ [m]\<rparr>)
           | Inr f' \<Rightarrow> loadMessages file finalPath ns f'))"

text \<open>The loop over \<^verbatim>\<open>DeclaredServices\<close>, the same in \<^verbatim>\<open>Load\<close> and in \<^verbatim>\<open>processImports\<close>.\<close>

fun loadServices :: "parsedFile \<Rightarrow> string \<Rightarrow> string list \<Rightarrow> FileSet \<Rightarrow> error option \<times> FileSet" where
  "loadServices file finalPath [] f = (None, f)"
| "loadServices file finalPath (n # ns) f =
     (case ServiceByName file n of
        None \<Rightarrow> (Some (Errorf (''BUG: '' @ finalPath @ '' declares '' @ n @
                               '', but service could not be found'')), f)
      | Some s \<Rightarrow>
          if knownServices f n \<noteq> None
          then (Some (Errorf (''multiple declarations of service '' @ n @
                               '' (duplicate found in '' @ finalPath @ '')'')), f)
          else loadServices file finalPath ns
                 (f\<lparr>knownServices := (knownServices f)(n \<mapsto> True),
                    Services := Services f @ [s]\<rparr>))"

text \<open>The loop over \<^verbatim>\<open>imported.DeclaredMessages\<close> in \<^verbatim>\<open>processImports\<close>.\<close>

fun importMessages :: "parsedFile \<Rightarrow> string \<Rightarrow> string list \<Rightarrow> FileSet \<Rightarrow> error option \<times> FileSet" where
  "importMessages imported finalPath [] f = (None, f)"
| "importMessages imported finalPath (m # ms) f =
     (case MessageByName imported m of
        None \<Rightarrow> (Some (Errorf (''BUG: '' @ finalPath @ '' declares '' @ m @
                               '', but message could not be found'')), f)
      | Some msg \<Rightarrow>
          (case registerMessage f imported msg of
             Inl e \<Rightarrow> (Some e, f)
           | Inr f' \<Rightarrow>
               importMessages imported finalPath ms
                 (if Package imported = packageName f'
                  then f'\<lparr>Messages := Messages f' @ [msg]\<rparr> else f')))"

text \<open>
  \<^verbatim>\<open>processImports\<close> calls itself for every imported file, and nothing bounds the depth
  (a file found through the \<^verbatim>\<open>.yarp\<close> fallback is recorded under a path that the
  test \<^verbatim>\<open>isLoaded\<close> of its next import does not look up). The model counts the nesting
  down in \<open>fuel\<close>; \<open>None\<close> says that the fuel did not suffice. The list is what is left
  of \<^verbatim>\<open>file.ImportedFiles\<close>.
\<close>

fun processImportsLoop ::
  "world \<Rightarrow> nat \<Rightarrow> string \<Rightarrow> string list \<Rightarrow> FileSet \<Rightarrow> (error option \<times> FileSet) option" where
  "processImportsLoop w fuel path [] f = Some (None, f)"
| "processImportsLoop w fuel path (i # rest) f =
     (case Abs w (Join (Dir path) i) of
        Inl e \<Rightarrow> Some (Some e, f)
      | Inr target \<Rightarrow>
         (case findAndLoad w f target of
            Inl err \<Rightarrow>
              Some (Some (case err of
                            SourceFileNotFoundError nf \<Rightarrow> ImportFileNotFoundError path nf
                          | _ \<Rightarrow> err), f)
          | Inr (finalPath, imported) \<Rightarrow>
             (case imported of
                None \<Rightarrow>
                  Some (Some (RuntimePanic NilDereference),
                        f\<lparr>loadedFiles := (loadedFiles f)(finalPath \<mapsto> True)\<rparr>)
              | Some file \<Rightarrow>
                 (case fuel of
                    0 \<Rightarrow> None
                  | Suc n \<Rightarrow>
                     (case processImportsLoop w n finalPath (ImportedFiles file)
                             (f\<lparr>loadedFiles := (loadedFiles f)(finalPath \<mapsto> True)\<rparr>) of
                        None \<Rightarrow> None
                      | Some (Some e, f2) \<Rightarrow> Some (Some e, f2)
                      | Some (None, f2) \<Rightarrow>
                         (case importMessages file finalPath (DeclaredMessages file) f2 of
                            (Some e, f3) \<Rightarrow> Some (Some e, f3)
                          | (None, f3) \<Rightarrow>
                             (case (if Package file = packageName f3
                                    then loadServices file finalPath (DeclaredServices file) f3
                                    else (None, f3)) of
                                (Some e, f4) \<Rightarrow> Some (Some e, f4)
                              | (None, f4) \<Rightarrow> processImportsLoop w fuel path rest f4)))))))"

text \<open>
  \<^verbatim>\<open>processImports(path, file)\<close>; \<^verbatim>\<open>file\<close> is a pointer, and ranging over
  \<^verbatim>\<open>file.ImportedFiles\<close> dereferences it.
\<close>

definition processImports ::
  "world \<Rightarrow> nat \<Rightarrow> string \<Rightarrow> parsedFile option \<Rightarrow> FileSet \<Rightarrow> (error option \<times> FileSet) option" where
  "processImports w fuel path file f =
     (case file of None \<Rightarrow> Some (Some (RuntimePanic NilDereference), f)
      | Some fl \<Rightarrow> processImportsLoop w fuel path (ImportedFiles fl) f)"

definition Load :: "world \<Rightarrow> nat \<Rightarrow> FileSet \<Rightarrow> string \<Rightarrow> (error option \<times> FileSet) option" where
  "Load w fuel f path =
     (case findAndLoad w f path of
        Inl err \<Rightarrow> Some (Some (Wrapped path err), f)
      | Inr (finalPath, file) \<Rightarrow>
         (let f1 = f\<lparr>loadedFiles := (loadedFiles f)(finalPath \<mapsto> True)\<rparr> in
          case file of
            None \<Rightarrow> Some (Some (RuntimePanic NilDereference), f1)
          | Some fl \<Rightarrow>
              if packageName f1 \<noteq> [] \<and> packageName f1 \<noteq> Package fl
              then Some (Some (MixedPackagesError path (packageName f1) (Package fl)), f1)
              else (case processImports w fuel finalPath file
                           (if packageName f1 = [] then f1\<lparr>packageName := Package fl\<rparr> else f1) of
                      None \<Rightarrow> None
                    | Some (Some e, f2) \<Rightarrow> Some (Some e, f2)
                    | Some (None, f2) \<Rightarrow>
                       (case loadMessages fl finalPath (DeclaredMessages fl) f2 of
                          (Some e, f3) \<Rightarrow> Some (Some e, f3)
                        | (None, f3) \<Rightarrow>
                            Some (loadServices fl finalPath (DeclaredServices fl) f3)))))"

subsection \<open>Concrete file systems\<close>

text \<open>
  A file system that holds exactly the listed regular files (absolute path and text),
  with the working directory \<^verbatim>\<open>/\<close>, against which it resolves a relative path, and a
  runtime that allocates no spare capacity.
\<close>

definition worldOf :: "(string \<times> string) list \<Rightarrow> world" where
  "worldOf files =
     \<lparr>getwd = Inr ''/'',
      stat = (\<lambda>p. if map_of files (Join ''/'' p) = None then NotExist else IsFile),
      readFile = (\<lambda>p. case map_of files (Join ''/'' p) of
                         None \<Rightarrow> Inl ''no such file'' | Some t \<Rightarrow> Inr t),
      growth = (\<lambda>oldcap needed. 0)\<rparr>"

text \<open>The set as a call of \<^verbatim>\<open>Load\<close> leaves it, and the error it returns.\<close>

definition afterLoad :: "world \<Rightarrow> nat \<Rightarrow> FileSet \<Rightarrow> string \<Rightarrow> FileSet" where
  "afterLoad w fuel f path = (case Load w fuel f path of None \<Rightarrow> f | Some (r, f') \<Rightarrow> f')"

definition errorOfLoad :: "world \<Rightarrow> nat \<Rightarrow> FileSet \<Rightarrow> string \<Rightarrow> error option option" where
  "errorOfLoad w fuel f path = map_option fst (Load w fuel f path)"


definition quote :: "string \<Rightarrow> string" where
  "quote s = CHR 0x22 # s @ [CHR 0x22]"

text \<open>Two files of package \<^verbatim>\<open>p\<close> that both declare the message \<^verbatim>\<open>M\<close>.\<close>

definition world1 :: world where
  "world1 = worldOf
     [(''/a.yarp'', ''package p;\<newline>message M {\<newline>}\<newline>''),
      (''/b.yarp'', ''package p;\<newline>message M {\<newline>}\<newline>'')]"

text \<open>A diamond: \<^verbatim>\<open>a\<close> imports \<^verbatim>\<open>b\<close> and \<^verbatim>\<open>c\<close>, which both import \<^verbatim>\<open>d\<close>.\<close>

definition world2 :: world where
  "world2 = worldOf
     [(''/a.yarp'', ''package p;\<newline>import '' @ quote ''b.yarp'' @ '';\<newline>import '' @
                    quote ''c.yarp'' @ '';\<newline>''),
      (''/b.yarp'', ''package p;\<newline>import '' @ quote ''d.yarp'' @ '';\<newline>''),
      (''/c.yarp'', ''package p;\<newline>import '' @ quote ''d.yarp'' @ '';\<newline>''),
      (''/d.yarp'', ''package p;\<newline>'')]"



section \<open>Pointers to annotation values (parser.go, FindByName)\<close>

text \<open>
  \<^verbatim>\<open>FindByName\<close> returns \<^verbatim>\<open>&v\<close>, the address of the loop variable, which holds a copy of
  the element. To say where a pointer points, the memory is made explicit: the backing
  arrays of annotation collections, the backing arrays of the \<^verbatim>\<open>Value\<close> slices, and the
  variables that live on the heap. A pointer is either the address of an element of a
  backing array or the address of such a variable.
\<close>

datatype pointer = Element nat nat | Variable nat

record memory =
  collections :: "slice AnnotationValue heap"
  valueArrays :: "string heap"
  variables :: "slice AnnotationValue list"

definition FindByNameM :: "memory \<Rightarrow> slice \<Rightarrow> string \<Rightarrow> (pointer option \<times> bool) \<times> memory" where
  "FindByNameM m a name =
     (case FindByName (elems (collections m) a) name of
        None \<Rightarrow> ((None, False), m)
      | Some v \<Rightarrow> ((Some (Variable (length (variables m))), True),
                   m\<lparr>variables := variables m @ [v]\<rparr>))"

definition deref :: "memory \<Rightarrow> pointer \<Rightarrow> slice AnnotationValue" where
  "deref m p =
     (case p of Variable n \<Rightarrow> variables m ! n | Element a i \<Rightarrow> collections m ! a ! i)"

definition assign :: "memory \<Rightarrow> pointer \<Rightarrow> slice AnnotationValue \<Rightarrow> memory" where
  "assign m p v =
     (case p of
        Variable n \<Rightarrow> m\<lparr>variables := (variables m)[n := v]\<rparr>
      | Element a i \<Rightarrow> m\<lparr>collections := (collections m)[a := (collections m ! a)[i := v]]\<rparr>)"

text \<open>
  What a caller can write through a pointer \<^verbatim>\<open>p\<close> to an AnnotationValue: one of its three
  fields (\<^verbatim>\<open>p.Offset = o\<close>, \<^verbatim>\<open>p.Name = n\<close>, \<^verbatim>\<open>p.Value = s\<close>), or an element of its value
  slice (\<^verbatim>\<open>p.Value[i] = x\<close>), which Go checks against the length of the slice.
\<close>

datatype mutation = SetOffset Offset | SetName string | SetValue slice | SetValueElem nat string

fun isFieldAssignment :: "mutation \<Rightarrow> bool" where
  "isFieldAssignment (SetValueElem i x) = False"
| "isFieldAssignment mu = True"

fun mutate :: "memory \<Rightarrow> pointer \<Rightarrow> mutation \<Rightarrow> error + memory" where
  "mutate m p (SetOffset off) = Inr (assign m p ((deref m p)\<lparr>aOffset := off\<rparr>))"
| "mutate m p (SetName n) = Inr (assign m p ((deref m p)\<lparr>aName := n\<rparr>))"
| "mutate m p (SetValue s) = Inr (assign m p ((deref m p)\<lparr>aValue := s\<rparr>))"
| "mutate m p (SetValueElem i x) =
     (let s = aValue (deref m p) in
      if i < slen s
      then Inr (m\<lparr>valueArrays := (valueArrays m)[sptr s := (valueArrays m ! sptr s)[i := x]]\<rparr>)
      else Inl (RuntimePanic IndexOutOfRange))"

text \<open>The collection as its readers see it: every element with the list its value slice denotes.\<close>

definition collectionView :: "memory \<Rightarrow> slice \<Rightarrow> annotationCollection" where
  "collectionView m a =
     map (\<lambda>v. \<lparr>aOffset = aOffset v, aName = aName v, aValue = elems (valueArrays m) (aValue v)\<rparr>)
       (elems (collections m) a)"

text \<open>A collection of one annotation, \<^verbatim>\<open>optional\<close>, with the one value \<^verbatim>\<open>x\<close>.\<close>

definition memory1 :: memory where
  "memory1 =
     \<lparr>collections = [[\<lparr>aOffset = zeroOffset, aName = ''optional'',
                        aValue = \<lparr>sptr = 0, slen = 1, scap = 1\<rparr>\<rparr>]],
      valueArrays = [[''x'']],
      variables = []\<rparr>"

definition collection1 :: slice where
  "collection1 = \<lparr>sptr = 0, slen = 1, scap = 1\<rparr>"

section \<open>General facts about the code\<close>

text \<open>
  The loop of \<^verbatim>\<open>comment\<close> ends at a newline or not at all: where no newline follows,
  the call panics, whatever the text.
\<close>

lemma peek_in_rest:
  "current s < length (data s) \<Longrightarrow> peek s \<in> set (drop (current s) (data s))"
  by (simp add: peek_def isAtEnd_def hd_drop_conv_nth[symmetric])

lemma comment_without_newline_panics:
  assumes "CHR 0x0A \<notin> set (drop (current s) (data s))"
  shows "comment s = Inl (RuntimePanic IndexOutOfRange)"
proof -
  have "CHR 0x0A \<notin> set (drop (current s) (data s)) \<Longrightarrow>
        commentLoop s = Inl (RuntimePanic IndexOutOfRange)" for s
  proof (induction s rule: commentLoop.induct)
    case (1 s)
    have pk: "peek s \<noteq> CHR 0x0A"
    proof (cases "current s < length (data s)")
      case True
      from peek_in_rest[OF True] "1.prems" show ?thesis by auto
    next
      case False
      then show ?thesis by (simp add: peek_def isAtEnd_def)
    qed
    show ?case
    proof (cases "advance s")
      case (Inl e)
      then have "e = RuntimePanic IndexOutOfRange" by (auto simp: advance_def split: if_splits)
      with Inl pk show ?thesis by (subst commentLoop.simps) simp
    next
      case (Inr rs)
      obtain r s' where rs: "rs = (r, s')" by (cases rs)
      from Inr rs have a: "advance s = Inr (r, s')" by simp
      from advance_frame[OF a]
      have "set (drop (current s') (data s')) \<subseteq> set (drop (current s) (data s))"
        using set_drop_subset_set_drop[of "current s" "Suc (current s)" "data s"] by simp
      with "1.prems" have "CHR 0x0A \<notin> set (drop (current s') (data s'))" by blast
      from "1.IH"[OF pk a refl this] a pk show ?thesis by (subst commentLoop.simps) simp
    qed
  qed
  with assms show ?thesis by (simp add: comment_def Let_def)
qed

text \<open>Likewise the loop of \<^verbatim>\<open>annotation\<close>, which ends at a space or not at all.\<close>

lemma annotation_without_space_panics:
  assumes "CHR '' '' \<notin> set (drop (current s) (data s))"
  shows "annotation s = Inl (RuntimePanic IndexOutOfRange)"
proof -
  have "CHR '' '' \<notin> set (drop (current s) (data s)) \<Longrightarrow>
        annotationLoop s = Inl (RuntimePanic IndexOutOfRange)" for s
  proof (induction s rule: annotationLoop.induct)
    case (1 s)
    have pk: "peek s \<noteq> CHR '' ''"
    proof (cases "current s < length (data s)")
      case True
      from peek_in_rest[OF True] "1.prems" show ?thesis by auto
    next
      case False
      then show ?thesis by (simp add: peek_def isAtEnd_def)
    qed
    show ?case
    proof (cases "advance s")
      case (Inl e)
      then have "e = RuntimePanic IndexOutOfRange" by (auto simp: advance_def split: if_splits)
      with Inl pk show ?thesis by (subst annotationLoop.simps) simp
    next
      case (Inr rs)
      obtain r s' where rs: "rs = (r, s')" by (cases rs)
      from Inr rs have a: "advance s = Inr (r, s')" by simp
      from advance_frame[OF a]
      have "set (drop (current s') (data s')) \<subseteq> set (drop (current s) (data s))"
        using set_drop_subset_set_drop[of "current s" "Suc (current s)" "data s"] by simp
      with "1.prems" have "CHR '' '' \<notin> set (drop (current s') (data s'))" by blast
      from "1.IH"[OF pk a refl this] a pk show ?thesis by (subst annotationLoop.simps) simp
    qed
  qed
  with assms show ?thesis by (simp add: annotation_def Let_def)
qed

text \<open>
  Once a rune is consumed, \<^verbatim>\<open>pos\<close> never yields column 1; every token but the
  end-of-input token of the empty text is made after the \<^verbatim>\<open>advance\<close> of \<^verbatim>\<open>scanToken\<close>.
\<close>

lemma posStep_column: "2 \<le> snd (posStep lc c) \<or> snd lc = 0"
  by (cases lc) (auto simp: posStep_def)

lemma foldl_posStep_pos: "0 < snd a \<Longrightarrow> 0 < snd (foldl posStep a xs)"
proof (induction xs arbitrary: a)
  case Nil
  then show ?case by simp
next
  case (Cons x xs)
  have "0 < snd (posStep a x)" by (cases a) (auto simp: posStep_def)
  from Cons.IH[OF this] show ?case by simp
qed

lemma pos_column_ge_2:
  assumes "0 < current s" and "current s \<le> length (data s)"
  shows "2 \<le> snd (pos s)"
proof -
  from assms have ne: "take (current s) (data s) \<noteq> []" by auto
  then obtain ys y where t: "take (current s) (data s) = ys @ [y]"
    by (metis rev_exhaust)
  have "0 < snd (foldl posStep (1, 1) ys)" by (rule foldl_posStep_pos) simp
  with posStep_column[of "foldl posStep (1, 1) ys" y] show ?thesis
    by (auto simp: pos_def t)
qed

text \<open>A successful scan ends with the end-of-input token.\<close>

lemma Scan_ends_with_EOF:
  assumes "Scan src = Inr ts"
  shows "ts \<noteq> [] \<and> tType (last ts) = EOF"
proof -
  have "Run s = Inr ts \<Longrightarrow> ts \<noteq> [] \<and> tType (last ts) = EOF" for s
  proof (induction s rule: Run.induct)
    case (1 s)
    show ?case
    proof (cases "isAtEnd s")
      case True
      with "1.prems" show ?thesis
        by (subst (asm) Run.simps) (auto simp: pushToken_def mkToken_def)
    next
      case False
      with "1.prems" obtain s' where a: "scanToken (s\<lparr>start := current s\<rparr>) = Inr s'"
        and l: "Run s' = Inr ts"
        by (subst (asm) Run.simps) (auto split: sum.splits)
      from "1.IH"[OF False a l] show ?thesis .
    qed
  qed
  with assms show ?thesis by (simp add: Scan_def)
qed

text \<open>
  After \<^verbatim>\<open>map\<close>, an opening angle bracket is always an error: \<^verbatim>\<open>parseMapType\<close> hands the
  token to \<^verbatim>\<open>parseMapKey\<close>, which wants an identifier.
\<close>

lemma parseMapType_rejects_open_angle:
  "peekIs p OpenAngled \<Longrightarrow> parseMapType p = Inl (errorT p ''unexpected token'')"
  by (simp add: parseMapType.simps parseMapKey_def peekIs_def is'_def)

text \<open>
  A slice cut to length 0 keeps its array: the next \<^verbatim>\<open>append\<close> writes element 0 of that
  array, and whoever still holds the old slice of length 1 reads the new element.
\<close>

lemma append_after_truncate_overwrites:
  assumes "0 < scap s" and "sptr s < length h" and "h ! sptr s \<noteq> []"
  shows "elems (fst (append g z h (truncate0 s) v)) (s\<lparr>slen := 1\<rparr>) = [v]"
  using assms
  by (cases "h ! sptr s") (simp_all add: append_def truncate0_def elems_def)

text \<open>
  Loading a path whose absolute form is loaded already always ends in the nil
  dereference, before anything else is looked at.
\<close>

lemma reload_always_panics:
  assumes "Abs w path = Inr s" and "isLoaded f s"
  shows "errorOfLoad w fuel f path = Some (Some (RuntimePanic NilDereference))"
  using assms by (simp add: errorOfLoad_def Load_def findAndLoad_def Let_def)

section \<open>Claims about the scanner\<close>

text \<open>
  Claim C2: for every input text, Scan terminates and returns either the tokens or a
  SyntaxError, and never indexes past the end of the input, also when the input ends in
  the middle of a comment or of an annotation name.

  \<^const>\<open>Run\<close> is total (its termination is proved above), but the second half fails on
  the code: the loops of \<^verbatim>\<open>comment\<close> and \<^verbatim>\<open>annotation\<close> do not test \<^verbatim>\<open>isAtEnd\<close>, so a
  comment or an annotation name that reaches the end of the input makes \<^verbatim>\<open>advance\<close>
  index \<^verbatim>\<open>data[len(data)]\<close>, which is a run-time panic and no SyntaxError. The two
  texts below are the shortest of their kind; \<open>comment_without_newline_panics\<close> and
  \<open>annotation_without_space_panics\<close> say the same of every text.
\<close>

theorem C2_Scan_panics_at_end_of_input:
  "Scan ''#x'' = Inl (RuntimePanic IndexOutOfRange) \<and>
   Scan ''@a'' = Inl (RuntimePanic IndexOutOfRange)"
  by code_simp

text \<open>
  Claim C7: a string literal ends at the first closing quote that no backslash precedes;
  a backslash before any other character is kept, so the five runes
  \<^verbatim>\<open>"a\b"\<close> scan to a string token.

  On the code the flag \<^verbatim>\<open>escaping\<close> stays set after a backslash until a quote is read:
  the quote that closes \<^verbatim>\<open>"a\b"\<close> is taken for an escaped one, the loop runs to the end of
  the input and the scan fails.
\<close>

theorem C7_backslash_before_letter_unterminated:
  "Scan [CHR 0x22, CHR ''a'', CHR 0x5C, CHR ''b'', CHR 0x22] =
     Inl (SyntaxError ''unterminated string'' 1 6)"
  by code_simp

text \<open>
  Claim C9: every token records the 1-based line and column of its first character.

  On the code \<^verbatim>\<open>pos\<close> counts the runes before \<^verbatim>\<open>current\<close>, and \<^verbatim>\<open>scanToken\<close> has
  advanced past the token's first rune when a token is made: a token that starts the
  text is recorded at column 2 and not 1; a line break is recorded on the line it
  opens; the first token of a later line is recorded at column 3. By
  \<open>pos_column_ge_2\<close> no token made after an \<^verbatim>\<open>advance\<close> is ever recorded at column 1.
\<close>

theorem C9_recorded_positions_are_shifted:
  "Scan ''a'' =
     Inr [\<lparr>tType = Identifier, tValue = ''a'', tLine = 1, tColumn = 2\<rparr>,
          \<lparr>tType = EOF, tValue = [], tLine = 1, tColumn = 2\<rparr>] \<and>
   Scan (CHR 0x0A # ''a'') =
     Inr [\<lparr>tType = LineBreak, tValue = [CHR 0x0A], tLine = 2, tColumn = 2\<rparr>,
          \<lparr>tType = Identifier, tValue = ''a'', tLine = 2, tColumn = 3\<rparr>,
          \<lparr>tType = EOF, tValue = [], tLine = 2, tColumn = 3\<rparr>]"
  by code_simp

section \<open>Claims about the parser\<close>

text \<open>
  Claim C1: for every otherwise well-formed source file in which a field's type is
  written \<^verbatim>\<open>map<string,string>\<close>, parsing succeeds and the field's type is the Map
  variant with string key and string value.

  On the code \<^verbatim>\<open>parseMapType\<close> goes to \<^verbatim>\<open>parseMapKey\<close> at once, without consuming the
  opening angle bracket as \<^verbatim>\<open>parseArrayType\<close> does; \<^verbatim>\<open>parseMapKey\<close> finds the token
  \<^verbatim>\<open><\<close> where it wants an identifier (\<open>parseMapType_rejects_open_angle\<close>). The file
  below fails to parse, whatever the runtime's allocation policy \<open>g\<close>.
\<close>

theorem C1_map_type_is_rejected:
  "scanAndParse g ''package p;\<newline>message M {\<newline>f map<string,string> = 0;\<newline>}\<newline>'' =
     Inl (ParseError \<lparr>tType = OpenAngled, tValue = ''<'', tLine = 3, tColumn = 8\<rparr>
            ''unexpected token'')"
  by code_simp

text \<open>
  Claim C6: for an annotation written with values in parentheses directly after the
  name, \<^verbatim>\<open>@name(v1, v2, ...)\<close>, the declaration that follows carries an AnnotationValue
  whose Name is \<^verbatim>\<open>name\<close> and whose Value is the list of the comma-separated token runs.

  On the code the scanner takes everything up to the next space into the annotation
  token, the parentheses included. With one value the field \<^verbatim>\<open>f\<close> carries an annotation
  named \<^verbatim>\<open>a(x)\<close> with no value; with two values the token is \<^verbatim>\<open>a(x,\<close>, and the rest of
  the list is read as a field, which fails.
\<close>

theorem C6_parenthesised_values_end_in_the_name:
  "map_sum id (\<lambda>f. map annotationsOf (membersOf f ''M''))
     (scanAndParse g ''package p;\<newline>message M {\<newline>@a(x) f string = 0;\<newline>}\<newline>'') =
     Inr [[(''a(x)'', [])]] \<and>
   scanAndParse g ''package p;\<newline>message M {\<newline>@a(x, y) f string = 0;\<newline>}\<newline>'' =
     Inl (ParseError \<lparr>tType = CloseParen, tValue = '')'', tLine = 3, tColumn = 10\<rparr>
            ''unexpected token'')"
proof (intro conjI)
  show "map_sum id (\<lambda>f. map annotationsOf (membersOf f ''M''))
     (scanAndParse g ''package p;\<newline>message M {\<newline>@a(x) f string = 0;\<newline>}\<newline>'') =
     Inr [[(''a(x)'', [])]]"
    apply code_simp
    apply simp
    done
  show "scanAndParse g ''package p;\<newline>message M {\<newline>@a(x, y) f string = 0;\<newline>}\<newline>'' =
     Inl (ParseError \<lparr>tType = CloseParen, tValue = '')'', tLine = 3, tColumn = 10\<rparr>
            ''unexpected token'')"
    by code_simp
qed

text \<open>
  Claim C8: a node of the tree is immutable once emitted: after a declaration is
  appended to the parse result, its Comments and Annotations never change as parsing
  continues, whatever is accumulated for later declarations.

  On the code a field takes the parser's slice \<^verbatim>\<open>p.annotations\<close> as it is, and
  \<^verbatim>\<open>flushMeta\<close> cuts the parser's slice to length 0 over the same backing array; the
  next \<^verbatim>\<open>append\<close> writes into that array (\<open>append_after_truncate_overwrites\<close>). In a
  message with the two fields
  \<^verbatim>\<open>@optional a\<close> and \<^verbatim>\<open>@repeated b\<close>, the field \<^verbatim>\<open>a\<close> ends up annotated \<^verbatim>\<open>repeated\<close>;
  had parsing ended after \<^verbatim>\<open>a\<close>, it would be annotated \<^verbatim>\<open>optional\<close>. This holds for
  every allocation policy \<open>g\<close> of the runtime.
\<close>

theorem C8_later_annotation_overwrites_emitted_field:
  "map_sum id (\<lambda>f. map annotationsOf (membersOf f ''M''))
     (scanAndParse g
        ''package p;\<newline>message M {\<newline>@optional a string = 0;\<newline>@repeated b string = 1;\<newline>}\<newline>'') =
     Inr [[(''repeated'', [])], [(''repeated'', [])]] \<and>
   map_sum id (\<lambda>f. map annotationsOf (membersOf f ''M''))
     (scanAndParse g ''package p;\<newline>message M {\<newline>@optional a string = 0;\<newline>}\<newline>'') =
     Inr [[(''optional'', [])]]"
proof (intro conjI)
  show "map_sum id (\<lambda>f. map annotationsOf (membersOf f ''M''))
     (scanAndParse g
        ''package p;\<newline>message M {\<newline>@optional a string = 0;\<newline>@repeated b string = 1;\<newline>}\<newline>'') =
     Inr [[(''repeated'', [])], [(''repeated'', [])]]"
    apply code_simp
    apply simp
    done
  show "map_sum id (\<lambda>f. map annotationsOf (membersOf f ''M''))
     (scanAndParse g ''package p;\<newline>message M {\<newline>@optional a string = 0;\<newline>}\<newline>'') =
     Inr [[(''optional'', [])]]"
    apply code_simp
    apply simp
    done
qed

section \<open>Claims about file sets\<close>




text \<open>
  Claim C4: loading a path whose absolute form is loaded already is a no-op that
  returns success, and an import that resolves to a loaded file (a diamond import) is
  skipped without error.

  On the code \<^verbatim>\<open>findAndLoad\<close> answers a loaded path with a nil \<^verbatim>\<open>*File\<close> and no error,
  and both callers go on to dereference it: \<^verbatim>\<open>Load\<close> reads \<^verbatim>\<open>file.Package\<close>,
  \<^verbatim>\<open>processImports\<close> ranges over \<^verbatim>\<open>file.ImportedFiles\<close> (\<open>reload_always_panics\<close> is the
  general statement for \<^verbatim>\<open>Load\<close>). The first load of \<^verbatim>\<open>/a.yarp\<close>
  succeeds and the second panics; in the diamond the second import of \<^verbatim>\<open>d.yarp\<close>
  panics. A file found through the \<^verbatim>\<open>.yarp\<close> fallback is recorded under the path
  \<^verbatim>\<open>a.yarp\<close>, which is not the absolute form \<^verbatim>\<open>/a\<close> that \<^verbatim>\<open>isLoaded\<close> looks up:
  loading \<^verbatim>\<open>a\<close> twice processes the file twice and fails on its own message.
\<close>

theorem C4_reload_and_diamond_import_panic:
  "errorOfLoad world1 0 NewFileSet ''/a.yarp'' = Some None \<and>
   errorOfLoad world1 0 (afterLoad world1 0 NewFileSet ''/a.yarp'') ''/a.yarp'' =
     Some (Some (RuntimePanic NilDereference)) \<and>
   errorOfLoad world2 2 NewFileSet ''/a.yarp'' = Some (Some (RuntimePanic NilDereference)) \<and>
   errorOfLoad world1 0 (afterLoad world1 0 NewFileSet ''a'') ''a'' =
     Some (Some (Errorf ''duplicated definition of p.M''))"
  by code_simp




section \<open>Claim about FindByName\<close>

text \<open>
  Claim C10: FindByName returns a pointer to a copy of the first matching
  AnnotationValue and not a pointer into the backing storage of the collection, so that
  mutating the value through the returned pointer never changes the collection.

  The copy is a copy of the struct: its \<^verbatim>\<open>Value\<close> field is a slice over the same backing
  array as the element's. Writing an element of that slice through the returned
  pointer is seen by every reader of the collection.
\<close>

theorem C10_value_element_write_reaches_collection:
  "FindByNameM memory1 collection1 ''optional'' =
     ((Some (Variable 0), True), memory1\<lparr>variables := [\<lparr>aOffset = zeroOffset, aName = ''optional'',
                                  aValue = \<lparr>sptr = 0, slen = 1, scap = 1\<rparr>\<rparr>]\<rparr>) \<and>
   map aValue (collectionView memory1 collection1) = [[''x'']] \<and>
   map_sum id (\<lambda>m. map aValue (collectionView m collection1))
     (mutate (snd (FindByNameM memory1 collection1 ''optional'')) (Variable 0)
        (SetValueElem 0 ''y'')) = Inr [[''y'']]"
  by (simp add: FindByNameM_def FindByName_def memory1_def collection1_def elems_def
      collectionView_def deref_def Let_def)

text \<open>
  Claim C10, as amended: FindByName returns a pointer to a variable of its own that
  holds a copy of the first matching AnnotationValue, and assigning to a field of that
  variable through the pointer (Offset, Name or Value) changes neither the backing
  arrays of the collection nor what its readers see.
\<close>

theorem C10_field_assignment_keeps_collection:
  assumes "FindByNameM m a name = ((Some p, ok), m')"
    and "isFieldAssignment mu"
  shows "\<exists>n v m''. p = Variable n \<and> FindByName (elems (collections m) a) name = Some v \<and>
           deref m' p = v \<and> mutate m' p mu = Inr m'' \<and>
           collections m'' = collections m \<and> valueArrays m'' = valueArrays m \<and>
           collectionView m'' a = collectionView m a"
proof -
  from assms(1) obtain v where f: "FindByName (elems (collections m) a) name = Some v"
    and p: "p = Variable (length (variables m))"
    and m': "m' = m\<lparr>variables := variables m @ [v]\<rparr>"
    by (auto simp: FindByNameM_def split: option.splits)
  have d: "deref m' p = v" by (simp add: deref_def p m')
  from assms(2) obtain m'' where mu: "mutate m' p mu = Inr m''"
    and c: "collections m'' = collections m'" and s: "valueArrays m'' = valueArrays m'"
    by (cases mu) (auto simp: assign_def p)
  from c s m' have "collectionView m'' a = collectionView m a"
    by (simp add: collectionView_def)
  with f p d mu c s m' show ?thesis by simp
qed

theorem C10_field_assignment_witness:
  "FindByNameM memory1 collection1 ''optional'' =
     ((Some (Variable 0), True), memory1\<lparr>variables := [\<lparr>aOffset = zeroOffset, aName = ''optional'',
                                  aValue = \<lparr>sptr = 0, slen = 1, scap = 1\<rparr>\<rparr>]\<rparr>) \<and>
   isFieldAssignment (SetName ''repeated'') \<and>
   map_sum id (\<lambda>m. collectionView m collection1)
     (mutate (snd (FindByNameM memory1 collection1 ''optional'')) (Variable 0)
        (SetName ''repeated'')) = Inr (collectionView memory1 collection1)"
proof -
  have h: "FindByNameM memory1 collection1 ''optional'' =
     ((Some (Variable 0), True), memory1\<lparr>variables := [\<lparr>aOffset = zeroOffset, aName = ''optional'',
                                  aValue = \<lparr>sptr = 0, slen = 1, scap = 1\<rparr>\<rparr>]\<rparr>)"
    by (simp add: FindByNameM_def FindByName_def memory1_def collection1_def elems_def)
  from C10_field_assignment_keeps_collection[OF h, of "SetName ''repeated''"]
  show ?thesis using h by auto
qed

end
